theory Spec2Isabelle
  imports Main "HOL-Library.Word" "HOL-Library.Product_Lexorder"
begin

section \<open>Data model\<close>

text \<open>
  The rows of the four tables of \<^verbatim>\<open>prisma/migrations/0001_init/migration.sql\<close>.
  Strings are lists of 8-bit characters, instants (\<^verbatim>\<open>DATETIME\<close> columns and JavaScript
  \<^verbatim>\<open>Date\<close> values) are integers (milliseconds), \<^verbatim>\<open>INTEGER\<close> columns and JavaScript
  numbers holding integers are \<^typ>\<open>int\<close>.
\<close>

datatype TaskStatus = TODO | DOING | DONE

datatype ProjectRole = OWNER | MEMBER

record Project =
  id :: string
  name :: string
  inviteCode :: string
  createdAt :: int
  updatedAt :: int

record Member =
  id :: string
  displayName :: string
  createdAt :: int
  updatedAt :: int

record ProjectMember =
  projectId :: string
  memberId :: string
  role :: ProjectRole
  joinedAt :: int

text \<open>
  The bodies the handlers read, after JSON decoding. A body that is not JSON, or whose
  members have the wrong JSON type (a number that is not an integer, a date-time string
  that is not ISO 8601, an unknown key under \<^verbatim>\<open>.strict()\<close>), is the value \<open>None\<close> of the
  request's \<open>json\<close> field; the lengths and ranges of the zod schemas are checked by the
  schema functions below. A date-time string is represented by the instant it denotes.
  For an \<^verbatim>\<open>.optional().nullable()\<close> member of the create schema, \<open>None\<close> stands for both
  \<^verbatim>\<open>undefined\<close> and \<^verbatim>\<open>null\<close> (the handler merges them with \<^verbatim>\<open>?? null\<close>); in the patch
  schema \<open>None\<close> is \<^verbatim>\<open>undefined\<close> and \<open>Some None\<close> is \<^verbatim>\<open>null\<close>.
\<close>

record CreateProjectData =
  projectName :: string
  displayName :: string

record CreateTaskData =
  title :: string
  description :: "string option"
  status :: "TaskStatus option"
  dueDate :: "int option"
  assigneeId :: "string option"

record BoardUpdateTask =
  id :: string
  status :: TaskStatus
  order :: int

record PatchTaskData =
  title :: "string option"
  description :: "string option option"
  status :: "TaskStatus option"
  order :: "int option"
  dueDate :: "int option option"
  assigneeId :: "string option option"

text \<open>
  A task as the handlers select it (every column but \<^verbatim>\<open>projectId\<close>; this is also the
  client's \<^verbatim>\<open>Task\<close> type), and the full row of the \<^verbatim>\<open>Task\<close> table.
\<close>

record TaskView =
  id :: string
  title :: string
  description :: "string option"
  status :: TaskStatus
  order :: int
  dueDate :: "int option"
  assigneeId :: "string option"
  creatorId :: string
  updatedAt :: int
  createdAt :: int

record Task = TaskView +
  projectId :: string

text \<open>
  The two database back ends of the repository: the PostgreSQL migration declares
  \<^verbatim>\<open>TaskStatus\<close> as an enum (sorted in declaration order), the SQLite migration stores
  the status as \<^verbatim>\<open>TEXT\<close> (sorted as a string).
\<close>

datatype backend = Postgres | Sqlite

record store =
  backend :: backend
  projects :: "Project list"
  members :: "Member list"
  projectMembers :: "ProjectMember list"
  tasks :: "Task list"

record 'a request =
  x_member_id :: "string option"
  json :: "'a option"

text \<open>
  What a handler answers: \<^verbatim>\<open>NextResponse.json({ error: code }, { status })\<close>,
  \<^verbatim>\<open>{ ok: true }\<close>, \<^verbatim>\<open>{ task }\<close>, the board, \<^verbatim>\<open>{ project, member }\<close>, or an exception
  that no handler catches. A project and a member are given by their rows, of which the
  handlers select \<^verbatim>\<open>id\<close>, \<^verbatim>\<open>name\<close>, \<^verbatim>\<open>inviteCode\<close> (and \<^verbatim>\<open>updatedAt\<close>) and \<^verbatim>\<open>id\<close>,
  \<^verbatim>\<open>displayName\<close>.
\<close>

datatype response =
    ErrorResponse string nat
  | OkTrue
  | TaskResponse TaskView
  | BoardResponse Project string "(string \<times> string \<times> ProjectRole) list" "TaskView list"
  | ProjectResponse Project Member
  | Uncaught string

section \<open>Strings and identity\<close>

text \<open>
  \<^verbatim>\<open>String.prototype.trim\<close> on 8-bit characters: the white space it strips is tab, line
  feed, vertical tab, form feed, carriage return and space.
\<close>

definition isWhiteSpace :: "char \<Rightarrow> bool" where
  "isWhiteSpace c = (c \<in> set [CHR 0x09, CHR 0x0A, CHR 0x0B, CHR 0x0C, CHR 0x0D, CHR 0x20])"

definition trim :: "string \<Rightarrow> string" where
  "trim s = rev (dropWhile isWhiteSpace (rev (dropWhile isWhiteSpace s)))"

text \<open>\<^verbatim>\<open>getMemberIdOrThrow\<close>: a thrown \<^verbatim>\<open>Error(message)\<close> is \<open>Inl message\<close>.\<close>

definition getMemberIdOrThrow :: "'a request \<Rightarrow> string + string" where
  "getMemberIdOrThrow req =
     (case x_member_id req of
        None \<Rightarrow> Inl ''MISSING_MEMBER_ID''
      | Some h \<Rightarrow>
          (let memberId = trim h
           in if memberId = [] then Inl ''MISSING_MEMBER_ID'' else Inr memberId))"

section \<open>The store's operations\<close>

definition projectMember_findUnique :: "store \<Rightarrow> string \<Rightarrow> string \<Rightarrow> ProjectMember option" where
  "projectMember_findUnique st pid mid =
     find (\<lambda>pm. ProjectMember.projectId pm = pid \<and> memberId pm = mid) (projectMembers st)"

definition assertMemberInProject :: "store \<Rightarrow> string \<Rightarrow> string \<Rightarrow> string + unit" where
  "assertMemberInProject st pid mid =
     (case projectMember_findUnique st pid mid of
        None \<Rightarrow> Inl ''FORBIDDEN''
      | Some pm \<Rightarrow> Inr ())"

definition project_findUnique :: "store \<Rightarrow> string \<Rightarrow> Project option" where
  "project_findUnique st pid = find (\<lambda>p. Project.id p = pid) (projects st)"

text \<open>
  \<^verbatim>\<open>projectMember.findMany\<close> of the board, ordered by \<^verbatim>\<open>joinedAt\<close>, each row with its
  member's \<^verbatim>\<open>id\<close> and \<^verbatim>\<open>displayName\<close> and flattened as the handler does with \<^verbatim>\<open>members.map\<close>.
\<close>

definition projectMember_findMany :: "store \<Rightarrow> string \<Rightarrow> (string \<times> string \<times> ProjectRole) list" where
  "projectMember_findMany st pid =
     List.map_filter
       (\<lambda>pm. map_option (\<lambda>m. (Member.id m, Member.displayName m, role pm))
                (find (\<lambda>m. Member.id m = memberId pm) (members st)))
       (sort_key joinedAt (filter (\<lambda>pm. ProjectMember.projectId pm = pid) (projectMembers st)))"

text \<open>
  \<^verbatim>\<open>task.aggregate({ where: { projectId, status }, _max: { order: true } })\<close>: the greatest
  \<^verbatim>\<open>order\<close> of the partition, \<^verbatim>\<open>null\<close> when it has no row.
\<close>

definition task_aggregate_max_order :: "store \<Rightarrow> string \<Rightarrow> TaskStatus \<Rightarrow> int option" where
  "task_aggregate_max_order st pid s =
     (case map order (filter (\<lambda>t. projectId t = pid \<and> status t = s) (tasks st)) of
        [] \<Rightarrow> None
      | x # xs \<Rightarrow> Some (fold max xs x))"

text \<open>
  Writes raise when the store refuses them: a primary key or unique index that is already
  taken, or \<^verbatim>\<open>update\<close>/\<^verbatim>\<open>delete\<close> of a row that does not exist.
\<close>

definition task_create :: "store \<Rightarrow> Task \<Rightarrow> string + store" where
  "task_create st row =
     (if id row \<in> set (map id (tasks st)) then Inl ''UNIQUE_CONSTRAINT''
      else Inr (st\<lparr>tasks := tasks st @ [row]\<rparr>))"

definition task_findUnique :: "store \<Rightarrow> string \<Rightarrow> Task option" where
  "task_findUnique st tid = find (\<lambda>t. id t = tid) (tasks st)"

definition task_findMany_in :: "store \<Rightarrow> string list \<Rightarrow> Task list" where
  "task_findMany_in st ids = filter (\<lambda>t. id t \<in> set ids) (tasks st)"

text \<open>\<^verbatim>\<open>task.update\<close>: the row's \<^verbatim>\<open>updatedAt\<close> column is set by the client library.\<close>

definition task_update :: "string \<Rightarrow> (Task \<Rightarrow> Task) \<Rightarrow> int \<Rightarrow> store \<Rightarrow> string + store" where
  "task_update tid data now st =
     (if tid \<in> set (map id (tasks st))
      then Inr (st\<lparr>tasks := map (\<lambda>t. if id t = tid then (data t)\<lparr>updatedAt := now\<rparr> else t) (tasks st)\<rparr>)
      else Inl ''RECORD_NOT_FOUND'')"

definition task_delete :: "store \<Rightarrow> string \<Rightarrow> string + store" where
  "task_delete st tid =
     (if tid \<in> set (map id (tasks st))
      then Inr (st\<lparr>tasks := filter (\<lambda>t. id t \<noteq> tid) (tasks st)\<rparr>)
      else Inl ''RECORD_NOT_FOUND'')"

text \<open>
  \<^verbatim>\<open>prisma.$transaction([...])\<close>: the writes run in sequence; the first one that raises
  aborts the transaction, and the caller is left with the store it had.
\<close>

fun transaction :: "(store \<Rightarrow> string + store) list \<Rightarrow> store \<Rightarrow> string + store" where
  "transaction [] st = Inr st"
| "transaction (q # qs) st = (case q st of Inl e \<Rightarrow> Inl e | Inr st' \<Rightarrow> transaction qs st')"

fun statusRank :: "backend \<Rightarrow> TaskStatus \<Rightarrow> nat" where
  "statusRank Postgres TODO = 0"
| "statusRank Postgres DOING = 1"
| "statusRank Postgres DONE = 2"
| "statusRank Sqlite DOING = 0"
| "statusRank Sqlite DONE = 1"
| "statusRank Sqlite TODO = 2"

text \<open>
  \<^verbatim>\<open>task.findMany\<close> of the board:
  \<^verbatim>\<open>orderBy: [{ status: "asc" }, { order: "asc" }, { createdAt: "asc" }]\<close>.
  Rows equal on the three keys stay in table order.
\<close>

definition task_findMany_board :: "store \<Rightarrow> string \<Rightarrow> Task list" where
  "task_findMany_board st pid =
     sort_key (\<lambda>t. (statusRank (backend st) (status t), order t, createdAt t))
       (filter (\<lambda>t. projectId t = pid) (tasks st))"

definition member_create :: "store \<Rightarrow> Member \<Rightarrow> string + store" where
  "member_create st row =
     (if Member.id row \<in> set (map Member.id (members st)) then Inl ''UNIQUE_CONSTRAINT''
      else Inr (st\<lparr>members := members st @ [row]\<rparr>))"

text \<open>\<^verbatim>\<open>project.create\<close> with the nested \<^verbatim>\<open>members: { create: ... }\<close>, one statement.\<close>

definition project_create :: "store \<Rightarrow> Project \<Rightarrow> ProjectMember \<Rightarrow> string + store" where
  "project_create st row pm =
     (if Project.id row \<in> set (map Project.id (projects st))
         \<or> inviteCode row \<in> set (map inviteCode (projects st))
      then Inl ''UNIQUE_CONSTRAINT''
      else Inr (st\<lparr>projects := projects st @ [row],
                   projectMembers := projectMembers st @ [pm]\<rparr>))"

section \<open>The schemas\<close>

definition CreateProjectSchema :: "CreateProjectData option \<Rightarrow> CreateProjectData option" where
  "CreateProjectSchema j =
     (case j of
        None \<Rightarrow> None
      | Some d \<Rightarrow>
          (let pn = trim (projectName d); dn = trim (CreateProjectData.displayName d)
           in if 1 \<le> length pn \<and> length pn \<le> 80 \<and> 1 \<le> length dn \<and> length dn \<le> 40
              then Some \<lparr>projectName = pn, displayName = dn\<rparr>
              else None))"

definition CreateTaskSchema :: "CreateTaskData option \<Rightarrow> CreateTaskData option" where
  "CreateTaskSchema j =
     (case j of
        None \<Rightarrow> None
      | Some d \<Rightarrow>
          (let t = trim (CreateTaskData.title d);
               ds = map_option trim (CreateTaskData.description d)
           in if 1 \<le> length t \<and> length t \<le> 120
                 \<and> (case ds of None \<Rightarrow> True | Some s \<Rightarrow> length s \<le> 2000)
                 \<and> (case CreateTaskData.assigneeId d of None \<Rightarrow> True | Some a \<Rightarrow> 1 \<le> length a)
              then Some (d\<lparr>CreateTaskData.title := t, CreateTaskData.description := ds\<rparr>)
              else None))"

definition BoardUpdateSchema :: "BoardUpdateTask list option \<Rightarrow> BoardUpdateTask list option" where
  "BoardUpdateSchema j =
     (case j of
        None \<Rightarrow> None
      | Some ts \<Rightarrow>
          (if list_all (\<lambda>t. 1 \<le> length (BoardUpdateTask.id t)
                            \<and> 0 \<le> BoardUpdateTask.order t \<and> BoardUpdateTask.order t \<le> 1000000) ts
              \<and> length ts \<le> 2000
           then Some ts else None))"

definition PatchTaskSchema :: "PatchTaskData option \<Rightarrow> PatchTaskData option" where
  "PatchTaskSchema j =
     (case j of
        None \<Rightarrow> None
      | Some d \<Rightarrow>
          (let t = map_option trim (PatchTaskData.title d);
               ds = map_option (map_option trim) (PatchTaskData.description d)
           in if (case t of None \<Rightarrow> True | Some s \<Rightarrow> 1 \<le> length s \<and> length s \<le> 120)
                 \<and> (case ds of Some (Some s) \<Rightarrow> length s \<le> 2000 | _ \<Rightarrow> True)
                 \<and> (case PatchTaskData.order d of None \<Rightarrow> True | Some n \<Rightarrow> 0 \<le> n \<and> n \<le> 1000000)
                 \<and> (case PatchTaskData.assigneeId d of Some (Some a) \<Rightarrow> 1 \<le> length a | _ \<Rightarrow> True)
                 \<and> \<not> (PatchTaskData.title d = None \<and> PatchTaskData.description d = None
                       \<and> PatchTaskData.status d = None \<and> PatchTaskData.order d = None
                       \<and> PatchTaskData.dueDate d = None \<and> PatchTaskData.assigneeId d = None)
              then Some (d\<lparr>PatchTaskData.title := t, PatchTaskData.description := ds\<rparr>)
              else None))"

section \<open>The task and board handlers\<close>

text \<open>
  Each handler takes the store, the route parameter and the request, and returns its
  response with the store it leaves. A handler that creates or updates a row also takes
  what the store and its client library generate for it: the new row's identifier and
  the current instant. The \<^verbatim>\<open>details\<close> of an \<^verbatim>\<open>INVALID_BODY\<close> answer are left out.

  The \<^verbatim>\<open>try\<close> block that opens \<^verbatim>\<open>POST\<close>, \<^verbatim>\<open>GET\<close> and \<^verbatim>\<open>PUT\<close>:
\<close>

definition memberOfProject :: "store \<Rightarrow> string \<Rightarrow> 'a request \<Rightarrow> string + string" where
  "memberOfProject st pid req =
     (case getMemberIdOrThrow req of
        Inl e \<Rightarrow> Inl e
      | Inr memberId' \<Rightarrow>
          (case assertMemberInProject st pid memberId' of
             Inl e \<Rightarrow> Inl e
           | Inr u \<Rightarrow> Inr memberId'))"

definition catchStatus :: "string \<Rightarrow> nat" where
  "catchStatus code = (if code = ''MISSING_MEMBER_ID'' then 401 else 403)"

text \<open>
  \<^verbatim>\<open>POST\<close> of a task makes its reads (membership, assignee, the aggregate) and then one
  write. \<open>POST_reads\<close> is the handler up to \<^verbatim>\<open>const order = (maxOrder._max.order ?? -1) + 1\<close>
  and returns either the answer of an early \<^verbatim>\<open>return\<close> or the \<^verbatim>\<open>data\<close> of the row to
  create; \<open>POST_create\<close> is \<^verbatim>\<open>prisma.task.create\<close> and the answer. The handler awaits the
  store between the two, with no transaction around them. The columns that the store
  fills at the create (\<^verbatim>\<open>id\<close>, \<^verbatim>\<open>createdAt\<close>, \<^verbatim>\<open>updatedAt\<close>) are empty in the \<^verbatim>\<open>data\<close>.
\<close>

definition select_task :: "Task \<Rightarrow> TaskView" where
  "select_task t = TaskView.truncate t"

definition POST_reads :: "store \<Rightarrow> string \<Rightarrow> CreateTaskData request \<Rightarrow> response + Task" where
  "POST_reads st pid req =
     (case memberOfProject st pid req of
        Inl code \<Rightarrow> Inl (ErrorResponse code (catchStatus code))
      | Inr memberId' \<Rightarrow>
          (case CreateTaskSchema (json req) of
             None \<Rightarrow> Inl (ErrorResponse ''INVALID_BODY'' 400)
           | Some d \<Rightarrow>
               (let status' = (case CreateTaskData.status d of None \<Rightarrow> TODO | Some s \<Rightarrow> s);
                    dueDate' = CreateTaskData.dueDate d;
                    assigneeId' = CreateTaskData.assigneeId d
                in if (case assigneeId' of
                         None \<Rightarrow> False
                       | Some a \<Rightarrow> a \<noteq> [] \<and> projectMember_findUnique st pid a = None)
                   then Inl (ErrorResponse ''ASSIGNEE_NOT_IN_PROJECT'' 400)
                   else
                     (let maxOrder = task_aggregate_max_order st pid status';
                          order' = (case maxOrder of None \<Rightarrow> - 1 | Some m \<Rightarrow> m) + 1
                      in Inr \<lparr>id = [], title = CreateTaskData.title d,
                              description = CreateTaskData.description d,
                              status = status', order = order', dueDate = dueDate',
                              assigneeId = assigneeId', creatorId = memberId',
                              updatedAt = 0, createdAt = 0, projectId = pid\<rparr>))))"

definition POST_create :: "store \<Rightarrow> Task \<Rightarrow> string \<Rightarrow> int \<Rightarrow> response \<times> store" where
  "POST_create st data newId now =
     (let row = data\<lparr>id := newId, createdAt := now, updatedAt := now\<rparr>
      in case task_create st row of
           Inl e \<Rightarrow> (Uncaught e, st)
         | Inr st' \<Rightarrow> (TaskResponse (select_task row), st'))"

definition POST :: "store \<Rightarrow> string \<Rightarrow> CreateTaskData request \<Rightarrow> string \<Rightarrow> int \<Rightarrow> response \<times> store" where
  "POST st pid req newId now =
     (case POST_reads st pid req of
        Inl r \<Rightarrow> (r, st)
      | Inr data \<Rightarrow> POST_create st data newId now)"

definition GET :: "store \<Rightarrow> string \<Rightarrow> 'a request \<Rightarrow> response \<times> store" where
  "GET st pid req =
     (case memberOfProject st pid req of
        Inl code \<Rightarrow> (ErrorResponse code (catchStatus code), st)
      | Inr memberId' \<Rightarrow>
          (case project_findUnique st pid of
             None \<Rightarrow> (ErrorResponse ''PROJECT_NOT_FOUND'' 404, st)
           | Some project' \<Rightarrow>
               (let members' = projectMember_findMany st pid;
                    tasks' = map select_task (task_findMany_board st pid)
                in (BoardResponse project' memberId' members' tasks', st))))"

definition PUT :: "store \<Rightarrow> string \<Rightarrow> BoardUpdateTask list request \<Rightarrow> int \<Rightarrow> response \<times> store" where
  "PUT st pid req now =
     (case memberOfProject st pid req of
        Inl code \<Rightarrow> (ErrorResponse code (catchStatus code), st)
      | Inr memberId' \<Rightarrow>
          (case BoardUpdateSchema (json req) of
             None \<Rightarrow> (ErrorResponse ''INVALID_BODY'' 400, st)
           | Some ts \<Rightarrow>
               (let ids = map BoardUpdateTask.id ts;
                    existing = task_findMany_in st ids
                in if length existing \<noteq> length ids \<or> list_ex (\<lambda>t. projectId t \<noteq> pid) existing
                   then (ErrorResponse ''TASKS_NOT_IN_PROJECT'' 400, st)
                   else
                     (case transaction
                             (map (\<lambda>t. task_update (BoardUpdateTask.id t)
                                          (\<lambda>row. row\<lparr>status := BoardUpdateTask.status t,
                                                      order := BoardUpdateTask.order t\<rparr>) now) ts) st of
                        Inl e \<Rightarrow> (Uncaught e, st)
                      | Inr st' \<Rightarrow> (OkTrue, st')))))"

text \<open>The \<^verbatim>\<open>data\<close> object of \<^verbatim>\<open>PATCH\<close>: one assignment for each member the body defines.\<close>

definition patch_data :: "PatchTaskData \<Rightarrow> Task \<Rightarrow> Task" where
  "patch_data d row =
     (let r1 = (case PatchTaskData.title d of None \<Rightarrow> row | Some v \<Rightarrow> row\<lparr>title := v\<rparr>);
          r2 = (case PatchTaskData.description d of None \<Rightarrow> r1 | Some v \<Rightarrow> r1\<lparr>description := v\<rparr>);
          r3 = (case PatchTaskData.status d of None \<Rightarrow> r2 | Some v \<Rightarrow> r2\<lparr>status := v\<rparr>);
          r4 = (case PatchTaskData.order d of None \<Rightarrow> r3 | Some v \<Rightarrow> r3\<lparr>order := v\<rparr>);
          r5 = (case PatchTaskData.dueDate d of None \<Rightarrow> r4 | Some v \<Rightarrow> r4\<lparr>dueDate := v\<rparr>)
      in (case PatchTaskData.assigneeId d of None \<Rightarrow> r5 | Some v \<Rightarrow> r5\<lparr>assigneeId := v\<rparr>))"

definition PATCH :: "store \<Rightarrow> string \<Rightarrow> PatchTaskData request \<Rightarrow> int \<Rightarrow> response \<times> store" where
  "PATCH st taskId req now =
     (case getMemberIdOrThrow req of
        Inl e \<Rightarrow> (ErrorResponse e 401, st)
      | Inr memberId' \<Rightarrow>
          (case PatchTaskSchema (json req) of
             None \<Rightarrow> (ErrorResponse ''INVALID_BODY'' 400, st)
           | Some d \<Rightarrow>
               (case task_findUnique st taskId of
                  None \<Rightarrow> (ErrorResponse ''TASK_NOT_FOUND'' 404, st)
                | Some existing \<Rightarrow>
                    (case assertMemberInProject st (projectId existing) memberId' of
                       Inl e \<Rightarrow> (ErrorResponse ''FORBIDDEN'' 403, st)
                     | Inr u \<Rightarrow>
                         (if (case PatchTaskData.assigneeId d of
                                Some (Some a) \<Rightarrow>
                                  a \<noteq> [] \<and> projectMember_findUnique st (projectId existing) a = None
                              | _ \<Rightarrow> False)
                          then (ErrorResponse ''ASSIGNEE_NOT_IN_PROJECT'' 400, st)
                          else
                            (case task_update taskId (patch_data d) now st of
                               Inl e \<Rightarrow> (Uncaught e, st)
                             | Inr st' \<Rightarrow>
                                 (case task_findUnique st' taskId of
                                    None \<Rightarrow> (Uncaught ''RECORD_NOT_FOUND'', st)
                                  | Some task \<Rightarrow> (TaskResponse (select_task task), st'))))))))"

definition DELETE :: "store \<Rightarrow> string \<Rightarrow> 'a request \<Rightarrow> response \<times> store" where
  "DELETE st taskId req =
     (case getMemberIdOrThrow req of
        Inl e \<Rightarrow> (ErrorResponse e 401, st)
      | Inr memberId' \<Rightarrow>
          (case task_findUnique st taskId of
             None \<Rightarrow> (OkTrue, st)
           | Some existing \<Rightarrow>
               (case assertMemberInProject st (projectId existing) memberId' of
                  Inl e \<Rightarrow> (ErrorResponse ''FORBIDDEN'' 403, st)
                | Inr u \<Rightarrow>
                    (case task_delete st taskId of
                       Inl e \<Rightarrow> (Uncaught e, st)
                     | Inr st' \<Rightarrow> (OkTrue, st')))))"

text \<open>
  Two \<^verbatim>\<open>POST\<close> requests that overlap: the handler yields at each \<^verbatim>\<open>await\<close>, so the reads of
  the second request can run before the create of the first. This is the schedule in which
  both requests make their reads on the same store and the two creates follow.
\<close>

definition overlapping_POSTs ::
  "store \<Rightarrow> string \<Rightarrow> CreateTaskData request \<Rightarrow> CreateTaskData request
     \<Rightarrow> string \<Rightarrow> string \<Rightarrow> int \<Rightarrow> response \<times> response \<times> store" where
  "overlapping_POSTs st pid req1 req2 newId1 newId2 now =
     (let read1 = POST_reads st pid req1;
          read2 = POST_reads st pid req2;
          (r1, st1) = (case read1 of Inl r \<Rightarrow> (r, st) | Inr d \<Rightarrow> POST_create st d newId1 now);
          (r2, st2) = (case read2 of Inl r \<Rightarrow> (r, st1) | Inr d \<Rightarrow> POST_create st1 d newId2 now)
      in (r1, r2, st2))"

section \<open>Invite codes and project creation\<close>

definition alphabet :: string where
  "alphabet = ''ABCDEFGHJKLMNPQRSTUVWXYZ23456789''"

text \<open>
  \<^verbatim>\<open>generateInviteCode(length = 8)\<close>. The buffer that \<^verbatim>\<open>randomBytes(length)\<close> returns is
  an input, read by index.
\<close>

function generateInviteCode_loop :: "nat \<Rightarrow> (nat \<Rightarrow> 8 word) \<Rightarrow> nat \<Rightarrow> string \<Rightarrow> string" where
  "generateInviteCode_loop len bytes i out =
     (if i < len
      then generateInviteCode_loop len bytes (i + 1)
             (out @ [alphabet ! (unat (bytes i) mod length alphabet)])
      else out)"
  by pat_completeness auto
termination
  by (relation "measure (\<lambda>(len, bytes, i, out). len - i)") auto

declare generateInviteCode_loop.simps [simp del]

definition generateInviteCode :: "nat \<Rightarrow> (nat \<Rightarrow> 8 word) \<Rightarrow> string" where
  "generateInviteCode len bytes = generateInviteCode_loop len bytes 0 []"

text \<open>
  What the environment hands to project creation: the identifier of the new member, and
  for each attempt of the loop the identifier of the new project and the random buffer.
\<close>

record env =
  newMemberId :: string
  newProjectId :: "nat \<Rightarrow> string"
  randomBytes :: "nat \<Rightarrow> nat \<Rightarrow> 8 word"
  clock :: int

text \<open>
  The retry loop \<^verbatim>\<open>for (let attempt = 0; attempt < 8; attempt++)\<close>: \<^verbatim>\<open>break\<close> on the
  first create that succeeds, \<^verbatim>\<open>continue\<close> on any exception; \<open>None\<close> is \<^verbatim>\<open>project\<close> still
  \<^verbatim>\<open>undefined\<close> after the loop.
\<close>

function POST_projects_loop :: "store \<Rightarrow> env \<Rightarrow> string \<Rightarrow> nat \<Rightarrow> (Project \<times> store) option" where
  "POST_projects_loop st e pname attempt =
     (if attempt < 8
      then
        (let row = \<lparr>Project.id = newProjectId e attempt, name = pname,
                      inviteCode = generateInviteCode 8 (randomBytes e attempt),
                      Project.createdAt = clock e, Project.updatedAt = clock e\<rparr>;
             pm = \<lparr>ProjectMember.projectId = newProjectId e attempt, memberId = newMemberId e,
                     role = OWNER, joinedAt = clock e\<rparr>
         in case project_create st row pm of
              Inr st' \<Rightarrow> Some (row, st')
            | Inl err \<Rightarrow> POST_projects_loop st e pname (attempt + 1))
      else None)"
  by pat_completeness auto
termination
  by (relation "measure (\<lambda>(st, e, pname, attempt). 8 - attempt)") auto

declare POST_projects_loop.simps [simp del]

definition POST_projects :: "store \<Rightarrow> CreateProjectData request \<Rightarrow> env \<Rightarrow> response \<times> store" where
  "POST_projects st req e =
     (case CreateProjectSchema (json req) of
        None \<Rightarrow> (ErrorResponse ''INVALID_BODY'' 400, st)
      | Some d \<Rightarrow>
          (let member = \<lparr>Member.id = newMemberId e,
                         Member.displayName = CreateProjectData.displayName d,
                         Member.createdAt = clock e, Member.updatedAt = clock e\<rparr>
           in case member_create st member of
                Inl err \<Rightarrow> (Uncaught err, st)
              | Inr st1 \<Rightarrow>
                  (case POST_projects_loop st1 e (projectName d) 0 of
                     None \<Rightarrow> (ErrorResponse ''INVITE_CODE_GENERATION_FAILED'' 500, st1)
                   | Some (project', st2) \<Rightarrow> (ProjectResponse project' member, st2))))"

section \<open>The client's view of the board\<close>

type_synonym columns = "TaskStatus \<Rightarrow> TaskView list"

definition STATUSES :: "TaskStatus list" where
  "STATUSES = [TODO, DOING, DONE]"

text \<open>
  \<^verbatim>\<open>groupByStatus\<close>: a \<^verbatim>\<open>Record<TaskStatus, Task[]>\<close> is a function of the status. The
  comparator \<^verbatim>\<open>(a, b) => a.order - b.order\<close> orders by \<^verbatim>\<open>order\<close>, and
  \<^verbatim>\<open>Array.prototype.sort\<close> is stable.
\<close>

definition groupByStatus :: "TaskView list \<Rightarrow> columns" where
  "groupByStatus ts =
     (let out = fold (\<lambda>t out. out(status t := out (status t) @ [t])) ts (\<lambda>s. [])
      in fold (\<lambda>s out. out(s := sort_key order (out s))) STATUSES out)"

definition flattenUpdates :: "columns \<Rightarrow> BoardUpdateTask list" where
  "flattenUpdates cols =
     concat (map (\<lambda>s. map (\<lambda>i. \<lparr>BoardUpdateTask.id = id (cols s ! i),
                                  BoardUpdateTask.status = s,
                                  BoardUpdateTask.order = int i\<rparr>)
                       [0..<length (cols s)]) STATUSES)"

text \<open>
  Group-and-sort as the board shows it: the client's \<^verbatim>\<open>refresh\<close> fetches the board with
  \<^verbatim>\<open>GET\<close> and groups the tasks of the answer.
\<close>

definition refresh :: "store \<Rightarrow> string \<Rightarrow> 'a request \<Rightarrow> columns option" where
  "refresh st pid req =
     (case fst (GET st pid req) of
        BoardResponse p m ms ts \<Rightarrow> Some (groupByStatus ts)
      | _ \<Rightarrow> None)"

section \<open>The specification's operations\<close>

text \<open>
  The partition of a (project, status) pair, and Group-and-sort in the specification's
  words: the partition sorted by \<^verbatim>\<open>order\<close> ascending, ties broken by creation time
  ascending.
\<close>

definition partition_of :: "Task list \<Rightarrow> string \<Rightarrow> TaskStatus \<Rightarrow> Task list" where
  "partition_of ts pid s = filter (\<lambda>t. projectId t = pid \<and> status t = s) ts"

definition Group_and_sort :: "Task list \<Rightarrow> string \<Rightarrow> TaskStatus \<Rightarrow> Task list" where
  "Group_and_sort ts pid s = sort_key (\<lambda>t. (order t, createdAt t)) (partition_of ts pid s)"

text \<open>
  Apply-layout on one row: a task the batch lists takes the status and order of its entry
  (and the instant of the update), any other task is left as it is.
\<close>

definition apply_layout :: "BoardUpdateTask list \<Rightarrow> int \<Rightarrow> Task \<Rightarrow> Task" where
  "apply_layout us now t =
     (case find (\<lambda>u. BoardUpdateTask.id u = id t) us of
        None \<Rightarrow> t
      | Some u \<Rightarrow> t\<lparr>status := BoardUpdateTask.status u, order := BoardUpdateTask.order u,
                     updatedAt := now\<rparr>)"

section \<open>Example stores and requests\<close>

definition store_one_project :: store where
  "store_one_project =
     \<lparr>backend = Sqlite,
      projects = [\<lparr>Project.id = ''p0'', name = ''Board'', inviteCode = ''AAAAAAAA'',
                   Project.createdAt = 0, Project.updatedAt = 0\<rparr>],
      members = [], projectMembers = [], tasks = []\<rparr>"

definition create_project_request :: "CreateProjectData request" where
  "create_project_request =
     \<lparr>x_member_id = None, json = Some \<lparr>projectName = ''Next'', displayName = '' Mori ''\<rparr>\<rparr>"

definition env_all_collide :: env where
  "env_all_collide =
     \<lparr>newMemberId = ''m1'', newProjectId = (\<lambda>a. ''p1''), randomBytes = (\<lambda>a i. 0), clock = 5\<rparr>"

definition env_second_attempt :: env where
  "env_second_attempt =
     \<lparr>newMemberId = ''m1'', newProjectId = (\<lambda>a. ''p1''),
      randomBytes = (\<lambda>a i. if a = 0 then 0 else 1), clock = 5\<rparr>"

definition example_task :: "string \<Rightarrow> string \<Rightarrow> TaskStatus \<Rightarrow> int \<Rightarrow> int \<Rightarrow> Task" where
  "example_task tid pid s n created =
     \<lparr>id = tid, title = ''task'', description = None, status = s, order = n, dueDate = None,
      assigneeId = None, creatorId = ''m'', updatedAt = created, createdAt = created,
      projectId = pid\<rparr>"

definition board_store :: store where
  "board_store =
     \<lparr>backend = Sqlite,
      projects = [\<lparr>Project.id = ''p'', name = ''Board'', inviteCode = ''ABCDEFGH'',
                   Project.createdAt = 0, Project.updatedAt = 0\<rparr>],
      members = [\<lparr>Member.id = ''m'', Member.displayName = ''Mori'',
                  Member.createdAt = 0, Member.updatedAt = 0\<rparr>],
      projectMembers = [\<lparr>ProjectMember.projectId = ''p'', memberId = ''m'', role = OWNER,
                         joinedAt = 0\<rparr>],
      tasks = [example_task ''A'' ''p'' TODO 1 10, example_task ''B'' ''p'' TODO 0 20,
               example_task ''C'' ''p'' TODO 0 15, example_task ''D'' ''p'' DONE 0 12,
               example_task ''E'' ''q'' TODO 7 11]\<rparr>"

definition member_request :: "unit request" where
  "member_request = \<lparr>x_member_id = Some ''m'', json = None\<rparr>"

definition append_request :: "CreateTaskData request" where
  "append_request =
     \<lparr>x_member_id = Some '' m'',
      json = Some \<lparr>CreateTaskData.title = ''write tests'', CreateTaskData.description = None,
                   CreateTaskData.status = Some TODO, CreateTaskData.dueDate = None,
                   CreateTaskData.assigneeId = None\<rparr>\<rparr>"

definition appended_task :: Task where
  "appended_task =
     \<lparr>id = ''F'', title = ''write tests'', description = None, status = TODO, order = 2,
      dueDate = None, assigneeId = None, creatorId = ''m'', updatedAt = 30, createdAt = 30,
      projectId = ''p''\<rparr>"

definition empty_board :: store where
  "empty_board =
     \<lparr>backend = Postgres,
      projects = [\<lparr>Project.id = ''p'', name = ''Board'', inviteCode = ''ABCDEFGH'',
                   Project.createdAt = 0, Project.updatedAt = 0\<rparr>],
      members = [\<lparr>Member.id = ''m'', Member.displayName = ''Mori'',
                  Member.createdAt = 0, Member.updatedAt = 0\<rparr>],
      projectMembers = [\<lparr>ProjectMember.projectId = ''p'', memberId = ''m'', role = OWNER,
                         joinedAt = 0\<rparr>],
      tasks = []\<rparr>"

definition append_doing :: "CreateTaskData request" where
  "append_doing =
     \<lparr>x_member_id = Some ''m'',
      json = Some \<lparr>CreateTaskData.title = ''review'', CreateTaskData.description = None,
                   CreateTaskData.status = Some DOING, CreateTaskData.dueDate = None,
                   CreateTaskData.assigneeId = None\<rparr>\<rparr>"

definition doing_task :: "string \<Rightarrow> int \<Rightarrow> int \<Rightarrow> Task" where
  "doing_task tid n created =
     \<lparr>id = tid, title = ''review'', description = None, status = DOING, order = n,
      dueDate = None, assigneeId = None, creatorId = ''m'', updatedAt = created,
      createdAt = created, projectId = ''p''\<rparr>"

definition layout_entry :: "string \<Rightarrow> TaskStatus \<Rightarrow> int \<Rightarrow> BoardUpdateTask" where
  "layout_entry tid s n =
     \<lparr>BoardUpdateTask.id = tid, BoardUpdateTask.status = s, BoardUpdateTask.order = n\<rparr>"

definition moved_columns :: columns where
  "moved_columns s =
     (case s of
        TODO \<Rightarrow> map select_task [example_task ''B'' ''p'' TODO 0 20,
                                  example_task ''A'' ''p'' TODO 1 10,
                                  example_task ''C'' ''p'' TODO 0 15]
      | DOING \<Rightarrow> []
      | DONE \<Rightarrow> map select_task [example_task ''D'' ''p'' DONE 0 12])"

definition layout_request :: "BoardUpdateTask list request" where
  "layout_request = \<lparr>x_member_id = Some ''m'', json = Some (flattenUpdates moved_columns)\<rparr>"

definition duplicate_layout_request :: "BoardUpdateTask list request" where
  "duplicate_layout_request =
     \<lparr>x_member_id = Some ''m'',
      json = Some [layout_entry ''A'' TODO 0, layout_entry ''A'' TODO 1]\<rparr>"

definition foreign_layout_request :: "BoardUpdateTask list request" where
  "foreign_layout_request =
     \<lparr>x_member_id = Some ''m'',
      json = Some [layout_entry ''A'' TODO 0, layout_entry ''E'' TODO 1]\<rparr>"

definition tie_layout_request :: "BoardUpdateTask list request" where
  "tie_layout_request =
     \<lparr>x_member_id = Some ''m'',
      json = Some [layout_entry ''A'' TODO 0, layout_entry ''B'' TODO 0,
                   layout_entry ''C'' TODO 1]\<rparr>"

definition patch_assign_request :: "PatchTaskData request" where
  "patch_assign_request =
     \<lparr>x_member_id = Some ''m'',
      json = Some \<lparr>PatchTaskData.title = Some ''renamed'', PatchTaskData.description = None,
                   PatchTaskData.status = Some DONE, PatchTaskData.order = None,
                   PatchTaskData.dueDate = None,
                   PatchTaskData.assigneeId = Some (Some ''stranger'')\<rparr>\<rparr>"

definition stranger_request :: "unit request" where
  "stranger_request = \<lparr>x_member_id = Some ''stranger'', json = None\<rparr>"

section \<open>Lemmas\<close>

subsection \<open>Invite codes and the retry loop\<close>

lemma length_alphabet: "length alphabet = 32"
  by (simp add: alphabet_def)

lemma distinct_alphabet: "distinct alphabet"
  by (simp add: alphabet_def)

lemma alphabet_unambiguous: "set ''IO01'' \<inter> set alphabet = {}"
  by (simp add: alphabet_def)

lemma generateInviteCode_loop_map:
  "generateInviteCode_loop len bytes i out =
     out @ map (\<lambda>j. alphabet ! (unat (bytes j) mod length alphabet)) [i..<len]"
proof (induction len bytes i out rule: generateInviteCode_loop.induct)
  case (1 len bytes i out)
  show ?case
  proof (cases "i < len")
    case True
    then have "[i..<len] = i # [i + 1..<len]"
      by (simp add: upt_rec)
    with True 1 show ?thesis
      by (subst generateInviteCode_loop.simps) simp
  next
    case False
    then show ?thesis
      by (subst generateInviteCode_loop.simps) simp
  qed
qed

lemma generateInviteCode_map:
  "generateInviteCode len bytes =
     map (\<lambda>j. alphabet ! (unat (bytes j) mod length alphabet)) [0..<len]"
  by (simp add: generateInviteCode_def generateInviteCode_loop_map)

lemma length_generateInviteCode: "length (generateInviteCode len bytes) = len"
  by (simp add: generateInviteCode_map)

lemma set_generateInviteCode: "set (generateInviteCode len bytes) \<subseteq> set alphabet"
  by (auto simp: generateInviteCode_map length_alphabet)

lemma project_create_Inr:
  "project_create st row pm = Inr st' \<Longrightarrow>
     inviteCode row \<notin> set (map inviteCode (projects st))
     \<and> projects st' = projects st @ [row] \<and> tasks st' = tasks st \<and> members st' = members st"
  unfolding project_create_def by (cases "Project.id row \<in> set (map Project.id (projects st))
         \<or> inviteCode row \<in> set (map inviteCode (projects st))") auto

lemma POST_projects_loop_Some:
  "POST_projects_loop st e pname attempt = Some (p, st') \<Longrightarrow>
     (\<exists>a. attempt \<le> a \<and> a < 8 \<and> inviteCode p = generateInviteCode 8 (randomBytes e a))
     \<and> inviteCode p \<notin> set (map inviteCode (projects st))
     \<and> projects st' = projects st @ [p] \<and> tasks st' = tasks st \<and> members st' = members st"
proof (induction st e pname attempt rule: POST_projects_loop.induct)
  case (1 st e pname attempt)
  show ?case
  proof (cases "attempt < 8")
    case False
    with "1.prems" show ?thesis
      by (subst (asm) POST_projects_loop.simps) simp
  next
    case True
    define row where "row = \<lparr>Project.id = newProjectId e attempt, name = pname,
                      inviteCode = generateInviteCode 8 (randomBytes e attempt),
                      Project.createdAt = clock e, Project.updatedAt = clock e\<rparr>"
    define pm where "pm = \<lparr>ProjectMember.projectId = newProjectId e attempt, memberId = newMemberId e,
                     role = OWNER, joinedAt = clock e\<rparr>"
    have step: "POST_projects_loop st e pname attempt =
       (case project_create st row pm of
              Inr st' \<Rightarrow> Some (row, st')
            | Inl err \<Rightarrow> POST_projects_loop st e pname (attempt + 1))"
      unfolding row_def pm_def using True by (subst POST_projects_loop.simps) (simp add: Let_def)
    have code: "inviteCode row = generateInviteCode 8 (randomBytes e attempt)"
      by (simp add: row_def)
    show ?thesis
    proof (cases "project_create st row pm")
      case (Inr st2)
      with step "1.prems" have eq: "p = row" "st' = st2"
        by simp_all
      from project_create_Inr[OF Inr] eq code True show ?thesis
        by blast
    next
      case (Inl err)
      with step "1.prems" have "POST_projects_loop st e pname (attempt + 1) = Some (p, st')"
        by simp
      from "1.IH"[OF True row_def pm_def Inl this]
      obtain a where "attempt + 1 \<le> a" "a < 8" "inviteCode p = generateInviteCode 8 (randomBytes e a)"
        and rest: "inviteCode p \<notin> set (map inviteCode (projects st))"
          "projects st' = projects st @ [p]" "tasks st' = tasks st" "members st' = members st"
        by blast
      then have "attempt \<le> a" by simp
      with \<open>a < 8\<close> \<open>inviteCode p = generateInviteCode 8 (randomBytes e a)\<close> rest show ?thesis
        by blast
    qed
  qed
qed

lemma POST_projects_loop_None:
  "\<forall>a. attempt \<le> a \<and> a < 8 \<longrightarrow>
         generateInviteCode 8 (randomBytes e a) \<in> set (map inviteCode (projects st)) \<Longrightarrow>
   POST_projects_loop st e pname attempt = None"
proof (induction st e pname attempt rule: POST_projects_loop.induct)
  case (1 st e pname attempt)
  show ?case
  proof (cases "attempt < 8")
    case False
    then show ?thesis
      by (subst POST_projects_loop.simps) simp
  next
    case True
    let ?row = "\<lparr>Project.id = newProjectId e attempt, name = pname,
                      inviteCode = generateInviteCode 8 (randomBytes e attempt),
                      Project.createdAt = clock e, Project.updatedAt = clock e\<rparr>"
    let ?pm = "\<lparr>ProjectMember.projectId = newProjectId e attempt, memberId = newMemberId e,
                     role = OWNER, joinedAt = clock e\<rparr>"
    from True "1.prems" have coll: "inviteCode ?row \<in> set (map inviteCode (projects st))"
      by simp
    then have c: "project_create st ?row ?pm = Inl ''UNIQUE_CONSTRAINT''"
      by (simp add: project_create_def)
    have "POST_projects_loop st e pname (attempt + 1) = None"
      using "1.IH"[OF True refl refl c] "1.prems" by simp
    with True c show ?thesis
      by (subst POST_projects_loop.simps) simp
  qed
qed


lemma POST_projects_loop_retries:
  "attempt \<le> a \<Longrightarrow> a < 8 \<Longrightarrow>
   generateInviteCode 8 (randomBytes e a) \<notin> set (map inviteCode (projects st)) \<Longrightarrow>
   newProjectId e a \<notin> set (map Project.id (projects st)) \<Longrightarrow>
   POST_projects_loop st e pname attempt \<noteq> None"
proof (induction st e pname attempt rule: POST_projects_loop.induct)
  case (1 st e pname attempt)
  define row where "row = \<lparr>Project.id = newProjectId e attempt, name = pname,
                    inviteCode = generateInviteCode 8 (randomBytes e attempt),
                    Project.createdAt = clock e, Project.updatedAt = clock e\<rparr>"
  define pm where "pm = \<lparr>ProjectMember.projectId = newProjectId e attempt, memberId = newMemberId e,
                   role = OWNER, joinedAt = clock e\<rparr>"
  from "1.prems" have lt: "attempt < 8"
    by simp
  have step: "POST_projects_loop st e pname attempt =
     (case project_create st row pm of
            Inr st' \<Rightarrow> Some (row, st')
          | Inl err \<Rightarrow> POST_projects_loop st e pname (attempt + 1))"
    unfolding row_def pm_def using lt by (subst POST_projects_loop.simps) (simp add: Let_def)
  show ?case
  proof (cases "project_create st row pm")
    case (Inr st2)
    with step show ?thesis
      by simp
  next
    case (Inl err)
    have "attempt \<noteq> a"
    proof
      assume "attempt = a"
      with "1.prems" have "project_create st row pm = Inr (st\<lparr>projects := projects st @ [row],
                   projectMembers := projectMembers st @ [pm]\<rparr>)"
        by (simp add: project_create_def row_def)
      with Inl show False
        by simp
    qed
    with "1.prems" have "attempt + 1 \<le> a"
      by simp
    from "1.IH"[OF lt row_def pm_def Inl this "1.prems"(2,3,4)] step Inl show ?thesis
      by simp
  qed
qed

lemma POST_projects_cases:
  "POST_projects st req e = (r, st') \<Longrightarrow>
     (case r of
        ProjectResponse p m \<Rightarrow>
          (\<exists>a<8. inviteCode p = generateInviteCode 8 (randomBytes e a))
          \<and> inviteCode p \<notin> set (map inviteCode (projects st))
          \<and> projects st' = projects st @ [p]
      | _ \<Rightarrow> projects st' = projects st)"
proof (cases "CreateProjectSchema (json req)")
  case None
  assume "POST_projects st req e = (r, st')"
  with None show ?thesis
    by (auto simp: POST_projects_def)
next
  case (Some d)
  assume run: "POST_projects st req e = (r, st')"
  define member where "member = \<lparr>Member.id = newMemberId e,
                         Member.displayName = CreateProjectData.displayName d,
                         Member.createdAt = clock e, Member.updatedAt = clock e\<rparr>"
  show ?thesis
  proof (cases "member_create st member")
    case (Inl err)
    with Some run show ?thesis
      by (auto simp: POST_projects_def member_def)
  next
    case (Inr st1)
    then have st1: "projects st1 = projects st"
      by (auto simp: member_create_def split: if_splits)
    show ?thesis
    proof (cases "POST_projects_loop st1 e (projectName d) 0")
      case None
      with Some Inr run have "r = ErrorResponse ''INVITE_CODE_GENERATION_FAILED'' 500" "st' = st1"
        by (auto simp: POST_projects_def member_def)
      with st1 show ?thesis
        by simp
    next
      case (Some ps)
      obtain p st2 where ps: "ps = (p, st2)"
        by (cases ps)
      with Some \<open>CreateProjectSchema (json req) = Some d\<close> Inr run
      have "r = ProjectResponse p member" "st' = st2"
        by (auto simp: POST_projects_def member_def)
      with POST_projects_loop_Some[OF Some[unfolded ps]] st1 show ?thesis
        by auto
    qed
  qed
qed

lemma POST_projects_exhausted:
  assumes "CreateProjectSchema (json req) \<noteq> None"
    and "newMemberId e \<notin> set (map Member.id (members st))"
    and "\<forall>a<8. generateInviteCode 8 (randomBytes e a) \<in> set (map inviteCode (projects st))"
  shows "fst (POST_projects st req e) = ErrorResponse ''INVITE_CODE_GENERATION_FAILED'' 500"
proof -
  from assms(1) obtain d where d: "CreateProjectSchema (json req) = Some d"
    by blast
  define member where "member = \<lparr>Member.id = newMemberId e,
                         Member.displayName = CreateProjectData.displayName d,
                         Member.createdAt = clock e, Member.updatedAt = clock e\<rparr>"
  define st1 where "st1 = st\<lparr>members := members st @ [member]\<rparr>"
  from assms(2) have mc: "member_create st member = Inr st1"
    by (simp add: member_create_def member_def st1_def)
  have "projects st1 = projects st"
    by (simp add: st1_def)
  with assms(3) have "POST_projects_loop st1 e (projectName d) 0 = None"
    by (intro POST_projects_loop_None) simp
  with d mc show ?thesis
    by (simp add: POST_projects_def member_def)
qed

lemma POST_projects_retries:
  assumes "CreateProjectSchema (json req) \<noteq> None"
    and "newMemberId e \<notin> set (map Member.id (members st))"
    and "a < 8"
    and "generateInviteCode 8 (randomBytes e a) \<notin> set (map inviteCode (projects st))"
    and "newProjectId e a \<notin> set (map Project.id (projects st))"
  shows "\<exists>p m. fst (POST_projects st req e) = ProjectResponse p m"
proof -
  from assms(1) obtain d where d: "CreateProjectSchema (json req) = Some d"
    by blast
  define member where "member = \<lparr>Member.id = newMemberId e,
                         Member.displayName = CreateProjectData.displayName d,
                         Member.createdAt = clock e, Member.updatedAt = clock e\<rparr>"
  define st1 where "st1 = st\<lparr>members := members st @ [member]\<rparr>"
  from assms(2) have mc: "member_create st member = Inr st1"
    by (simp add: member_create_def member_def st1_def)
  have "projects st1 = projects st"
    by (simp add: st1_def)
  with assms(3,4,5) have "POST_projects_loop st1 e (projectName d) 0 \<noteq> None"
    by (intro POST_projects_loop_retries[of 0 a]) simp_all
  then obtain p st2 where "POST_projects_loop st1 e (projectName d) 0 = Some (p, st2)"
    by auto
  with d mc show ?thesis
    by (simp add: POST_projects_def member_def)
qed


subsection \<open>Sorting and the board's columns\<close>

lemma select_task_simps [simp]:
  "id (select_task t) = id t" "status (select_task t) = status t"
  "order (select_task t) = order t" "createdAt (select_task t) = createdAt t"
  by (simp_all add: select_task_def TaskView.truncate_def)

lemma fold_push:
  "fold (\<lambda>t out. out(status t := out (status t) @ [t])) ts init s
     = init s @ filter (\<lambda>t. status t = s) ts"
  by (induction ts arbitrary: init) auto

lemma groupByStatus_column:
  "groupByStatus ts s = sort_key order (filter (\<lambda>t. status t = s) ts)"
  by (cases s) (simp_all add: groupByStatus_def STATUSES_def fold_push)

lemma insort_key_map:
  "insort_key f (g x) (map g ys) = map g (insort_key (\<lambda>y. f (g y)) x ys)"
  by (induction ys) simp_all

lemma sort_key_map:
  "sort_key f (map g xs) = map g (sort_key (\<lambda>y. f (g y)) xs)"
  by (induction xs) (simp_all add: insort_key_map)

lemma insort_key_agree:
  "\<forall>y\<in>set ys. (f x \<le> f y) = (g x \<le> g y) \<Longrightarrow> insort_key f x ys = insort_key g x ys"
  by (induction ys) simp_all

lemma sort_key_agree:
  "\<forall>x\<in>set xs. \<forall>y\<in>set xs. (f x \<le> f y) = (g x \<le> g y) \<Longrightarrow> sort_key f xs = sort_key g xs"
proof (induction xs)
  case Nil
  then show ?case by simp
next
  case (Cons x xs)
  then have "sort_key f xs = sort_key g xs"
    by simp
  moreover from Cons.prems have "\<forall>y\<in>set (sort_key g xs). (f x \<le> f y) = (g x \<le> g y)"
    by simp
  ultimately show ?case
    by (simp add: insort_key_agree)
qed

lemma sorted_map_fst:
  "sorted (map (\<lambda>t. (f t, g t)) xs) \<Longrightarrow> sorted (map f xs)"
  by (induction xs) (auto simp: less_eq_prod_def)

lemma board_column:
  "filter (\<lambda>t. status t = s) (task_findMany_board st pid) = Group_and_sort (tasks st) pid s"
proof -
  let ?K = "\<lambda>t. (statusRank (backend st) (status t), order t, createdAt t)"
  let ?P = "partition_of (tasks st) pid s"
  have "filter (\<lambda>t. status t = s) (task_findMany_board st pid) = sort_key ?K ?P"
    by (simp add: task_findMany_board_def filter_sort partition_of_def conj_commute)
  also have "\<dots> = sort_key (\<lambda>t. (order t, createdAt t)) ?P"
    by (rule sort_key_agree) (auto simp: partition_of_def less_eq_prod_def)
  finally show ?thesis
    by (simp add: Group_and_sort_def)
qed

lemma sorted_Group_and_sort:
  "sorted (map (\<lambda>t. (order t, createdAt t)) (Group_and_sort ts pid s))"
  by (simp add: Group_and_sort_def)

lemma view_column:
  "groupByStatus (map select_task (task_findMany_board st pid)) s
     = map select_task (Group_and_sort (tasks st) pid s)"
proof -
  have "groupByStatus (map select_task (task_findMany_board st pid)) s
      = sort_key order (map select_task (filter (\<lambda>t. status t = s) (task_findMany_board st pid)))"
    by (simp add: groupByStatus_column filter_map comp_def)
  also have "\<dots> = map select_task (sort_key order (Group_and_sort (tasks st) pid s))"
    by (simp add: sort_key_map board_column)
  also have "sort_key order (Group_and_sort (tasks st) pid s) = Group_and_sort (tasks st) pid s"
    by (rule sort_key_id_if_sorted) (rule sorted_map_fst[OF sorted_Group_and_sort])
  finally show ?thesis .
qed


lemma GET_board:
  "GET st pid req = (BoardResponse p m ms ts, st') \<Longrightarrow>
     ts = map select_task (task_findMany_board st pid)"
  by (auto simp: GET_def Let_def split: sum.splits option.splits)

lemma GET_pure: "snd (GET st pid req) = st"
  by (auto simp: GET_def Let_def split: sum.splits option.splits)

lemma refresh_Some:
  "refresh st pid req = Some cols \<Longrightarrow>
     cols = groupByStatus (map select_task (task_findMany_board st pid))"
proof -
  assume r: "refresh st pid req = Some cols"
  obtain r0 st' where g: "GET st pid req = (r0, st')"
    by (cases "GET st pid req")
  with r obtain p m ms ts where r0: "r0 = BoardResponse p m ms ts" and c: "cols = groupByStatus ts"
    by (auto simp: refresh_def split: response.splits)
  from GET_board[OF g[unfolded r0]] c show ?thesis
    by simp
qed

lemma refresh_succeeds:
  "memberOfProject st pid req = Inr m \<Longrightarrow> project_findUnique st pid = Some p \<Longrightarrow>
     refresh st pid req = Some (groupByStatus (map select_task (task_findMany_board st pid)))"
  by (simp add: refresh_def GET_def Let_def)

subsection \<open>Appending a task\<close>

lemma task_aggregate_max_order_None:
  "(task_aggregate_max_order st pid s = None) = (partition_of (tasks st) pid s = [])"
  by (cases "filter (\<lambda>t. projectId t = pid \<and> status t = s) (tasks st)")
    (simp_all add: task_aggregate_max_order_def partition_of_def)

lemma task_aggregate_max_order_Some:
  "partition_of (tasks st) pid s \<noteq> [] \<Longrightarrow>
     task_aggregate_max_order st pid s = Some (Max (order ` set (partition_of (tasks st) pid s)))"
proof -
  assume ne: "partition_of (tasks st) pid s \<noteq> []"
  then obtain x xs where m: "map order (partition_of (tasks st) pid s) = x # xs"
    by (cases "map order (partition_of (tasks st) pid s)") auto
  then have "order ` set (partition_of (tasks st) pid s) = set (x # xs)"
    by (metis set_map)
  with m show ?thesis
    by (simp add: task_aggregate_max_order_def partition_of_def[symmetric] Max.set_eq_fold del: set_simps)
qed

lemma POST_create_TaskResponse:
  "POST_create st data newId now = (TaskResponse t, st') \<Longrightarrow>
     newId \<notin> set (map id (tasks st))
     \<and> st' = st\<lparr>tasks := tasks st @ [data\<lparr>id := newId, createdAt := now, updatedAt := now\<rparr>]\<rparr>
     \<and> t = select_task (data\<lparr>id := newId, createdAt := now, updatedAt := now\<rparr>)"
  by (auto simp: POST_create_def task_create_def Let_def split: if_splits)

lemma POST_reads_Inr:
  "POST_reads st pid req = Inr data \<Longrightarrow>
     projectId data = pid
     \<and> order data = (case task_aggregate_max_order st pid (status data) of None \<Rightarrow> - 1 | Some m \<Rightarrow> m) + 1"
  by (auto simp: POST_reads_def Let_def split: sum.splits option.splits if_splits)

lemma POST_reads_Inl:
  "POST_reads st pid req = Inl r \<Longrightarrow> \<exists>code n. r = ErrorResponse code n"
  by (auto simp: POST_reads_def Let_def split: sum.splits option.splits if_splits)

lemma POST_TaskResponse:
  assumes "POST st pid req newId now = (TaskResponse t, st')"
  obtains row where "st' = st\<lparr>tasks := tasks st @ [row]\<rparr>" "t = select_task row"
    "projectId row = pid" "id row = newId" "createdAt row = now"
    "newId \<notin> set (map id (tasks st))"
    "order row = (case task_aggregate_max_order st pid (status row) of None \<Rightarrow> - 1 | Some m \<Rightarrow> m) + 1"
proof -
  from assms obtain data where rd: "POST_reads st pid req = Inr data"
    and cr: "POST_create st data newId now = (TaskResponse t, st')"
    by (auto simp: POST_def split: sum.splits dest: POST_reads_Inl)
  let ?row = "data\<lparr>id := newId, createdAt := now, updatedAt := now\<rparr>"
  from POST_create_TaskResponse[OF cr] POST_reads_Inr[OF rd]
  show thesis
    by (intro that[of ?row]) simp_all
qed


lemma order_le_aggregate:
  assumes "y \<in> set (partition_of (tasks st) pid s)"
  shows "order y < (case task_aggregate_max_order st pid s of None \<Rightarrow> - 1 | Some m \<Rightarrow> m) + 1"
proof -
  from assms have ne: "partition_of (tasks st) pid s \<noteq> []"
    by auto
  from assms have "order y \<le> Max (order ` set (partition_of (tasks st) pid s))"
    by (intro Max_ge) auto
  with task_aggregate_max_order_Some[OF ne] show ?thesis
    by simp
qed

lemma sorted_le_last:
  "sorted xs \<Longrightarrow> y \<in> set xs \<Longrightarrow> y \<le> last xs"
  by (induction xs) auto

lemma sort_key_Nil_iff: "(sort_key f xs = []) = (xs = [])"
proof -
  have "length (sort_key f xs) = length xs"
    by simp
  then show ?thesis
    by (metis length_0_conv)
qed

lemma last_sort_key:
  assumes "x \<in> set xs" and "\<forall>y\<in>set xs. y \<noteq> x \<longrightarrow> f y < f x"
  shows "last (sort_key f xs) = x"
proof (rule ccontr)
  let ?L = "sort_key f xs"
  assume neq: "last ?L \<noteq> x"
  from assms(1) have ne: "?L \<noteq> []"
    by (auto simp: sort_key_Nil_iff)
  then have "last ?L \<in> set ?L"
    by (rule last_in_set)
  then have "last ?L \<in> set xs"
    by simp
  with assms(2) neq have lt: "f (last ?L) < f x"
    by blast
  from assms(1) have "f x \<in> set (map f ?L)"
    by simp
  moreover have "sorted (map f ?L)"
    by simp
  ultimately have "f x \<le> last (map f ?L)"
    by (intro sorted_le_last)
  with ne lt show False
    by (simp add: last_map)
qed

lemma POST_order_value:
  assumes "POST st pid req newId now = (TaskResponse t, st')"
  shows "order t = (if partition_of (tasks st) pid (status t) = [] then 0
                    else 1 + Max (order ` set (partition_of (tasks st) pid (status t))))"
proof -
  from assms obtain row where row: "t = select_task row"
    "order row = (case task_aggregate_max_order st pid (status row) of None \<Rightarrow> - 1 | Some m \<Rightarrow> m) + 1"
    by (rule POST_TaskResponse)
  show ?thesis
  proof (cases "partition_of (tasks st) pid (status row) = []")
    case True
    with row task_aggregate_max_order_None[of st pid "status row"] show ?thesis
      by simp
  next
    case False
    with row task_aggregate_max_order_Some[OF False] show ?thesis
      by simp
  qed
qed

lemma append_last:
  assumes "POST st pid req newId now = (TaskResponse t, st')"
  shows "Group_and_sort (tasks st') pid (status t) \<noteq> []
         \<and> select_task (last (Group_and_sort (tasks st') pid (status t))) = t"
proof -
  from assms obtain row where row: "st' = st\<lparr>tasks := tasks st @ [row]\<rparr>" "t = select_task row"
    "projectId row = pid"
    "order row = (case task_aggregate_max_order st pid (status row) of None \<Rightarrow> - 1 | Some m \<Rightarrow> m) + 1"
    by (rule POST_TaskResponse)
  let ?s = "status row"
  let ?P = "partition_of (tasks st) pid ?s"
  have part: "partition_of (tasks st') pid ?s = ?P @ [row]"
    using row(1,3) by (simp add: partition_of_def)
  have "\<forall>y\<in>set (?P @ [row]). y \<noteq> row \<longrightarrow>
          (order y, createdAt y) < (order row, createdAt row)"
    using order_le_aggregate[of _ st pid ?s] row(4) by (auto simp: less_prod_def)
  then have "last (sort_key (\<lambda>t. (order t, createdAt t)) (?P @ [row])) = row"
    by (intro last_sort_key) simp_all
  with part row(2) show ?thesis
    by (simp add: Group_and_sort_def sort_key_Nil_iff)
qed

lemma POST_succeeds:
  assumes "memberOfProject st pid req = Inr m"
    and "CreateTaskSchema (json req) = Some d"
    and "case CreateTaskData.assigneeId d of None \<Rightarrow> True
         | Some a \<Rightarrow> projectMember_findUnique st pid a \<noteq> None"
    and "newId \<notin> set (map id (tasks st))"
  shows "\<exists>t st'. POST st pid req newId now = (TaskResponse t, st')"
proof -
  from assms(1,2,3) obtain data where "POST_reads st pid req = Inr data"
    by (auto simp: POST_reads_def Let_def split: option.splits)
  with assms(4) show ?thesis
    by (simp add: POST_def POST_create_def task_create_def Let_def)
qed

lemma length_partitions:
  "length (partition_of ts pid TODO) + length (partition_of ts pid DOING)
     + length (partition_of ts pid DONE) = length (filter (\<lambda>t. projectId t = pid) ts)"
proof (induction ts)
  case Nil
  then show ?case by (simp add: partition_of_def)
next
  case (Cons t ts)
  then show ?case
    by (cases "status t") (auto simp: partition_of_def)
qed

lemma refresh_column:
  "refresh st pid req = Some cols \<Longrightarrow>
     cols s = map select_task (Group_and_sort (tasks st) pid s)"
  by (drule refresh_Some) (simp add: view_column)

lemma length_Group_and_sort:
  "length (Group_and_sort ts pid s) = length (partition_of ts pid s)"
  by (simp add: Group_and_sort_def)

lemma partition_of_append:
  "partition_of (ts @ [row]) pid s
     = partition_of ts pid s @ (if projectId row = pid \<and> status row = s then [row] else [])"
  by (simp add: partition_of_def)

lemma POST_POST_order:
  assumes "POST st pid req1 newId1 now1 = (TaskResponse t1, st1)"
    and "POST st1 pid req2 newId2 now2 = (TaskResponse t2, st2)"
    and "status t2 = status t1"
  shows "order t2 = order t1 + 1"
proof -
  from assms(1) obtain row where row: "st1 = st\<lparr>tasks := tasks st @ [row]\<rparr>" "t1 = select_task row"
    "projectId row = pid"
    "order row = (case task_aggregate_max_order st pid (status row) of None \<Rightarrow> - 1 | Some m \<Rightarrow> m) + 1"
    by (rule POST_TaskResponse)
  let ?s = "status row"
  let ?P = "partition_of (tasks st) pid ?s"
  from row assms(3) have s2: "status t2 = ?s"
    by simp
  have part: "partition_of (tasks st1) pid ?s = ?P @ [row]"
    using row(1,3) by (simp add: partition_of_append)
  have "Max (order ` set (?P @ [row])) = order row"
  proof (rule Max_eqI)
    fix y
    assume "y \<in> order ` set (?P @ [row])"
    then consider "y = order row" | x where "x \<in> set ?P" "y = order x"
      by auto
    then show "y \<le> order row"
    proof cases
      case 1
      then show ?thesis by simp
    next
      case 2
      with order_le_aggregate[OF 2(1)] row(4) show ?thesis
        by linarith
    qed
  qed simp_all
  with POST_order_value[OF assms(2)] part s2 row(2) show ?thesis
    by simp
qed

subsection \<open>Applying a layout\<close>

lemma length_filter_distinct:
  assumes "distinct xs"
  shows "(length (filter (\<lambda>x. x \<in> set ys) xs) = length ys) = (distinct ys \<and> set ys \<subseteq> set xs)"
proof -
  from assms have "distinct (filter (\<lambda>x. x \<in> set ys) xs)"
    by simp
  then have "card (set (filter (\<lambda>x. x \<in> set ys) xs)) = length (filter (\<lambda>x. x \<in> set ys) xs)"
    by (rule distinct_card)
  moreover have "set (filter (\<lambda>x. x \<in> set ys) xs) = set xs \<inter> set ys"
    by auto
  ultimately have len: "length (filter (\<lambda>x. x \<in> set ys) xs) = card (set xs \<inter> set ys)"
    by simp
  have le1: "card (set xs \<inter> set ys) \<le> card (set ys)"
    by (intro card_mono) auto
  have le2: "card (set ys) \<le> length ys"
    by (rule card_length)
  show ?thesis
  proof
    assume "length (filter (\<lambda>x. x \<in> set ys) xs) = length ys"
    with len le1 le2 have c1: "card (set ys) = length ys" and c2: "card (set xs \<inter> set ys) = card (set ys)"
      by simp_all
    from c1 have "distinct ys"
      by (rule card_distinct)
    moreover from c2 have "set xs \<inter> set ys = set ys"
      by (intro card_subset_eq) auto
    ultimately show "distinct ys \<and> set ys \<subseteq> set xs"
      by auto
  next
    assume "distinct ys \<and> set ys \<subseteq> set xs"
    then have "set xs \<inter> set ys = set ys" "card (set ys) = length ys"
      by (auto simp: distinct_card)
    with len show "length (filter (\<lambda>x. x \<in> set ys) xs) = length ys"
      by simp
  qed
qed

lemma length_task_findMany_in:
  assumes "distinct (map id (tasks st))"
  shows "(length (task_findMany_in st ids) = length ids)
           = (distinct ids \<and> set ids \<subseteq> set (map id (tasks st)))"
proof -
  have "length (task_findMany_in st ids) = length (filter (\<lambda>x. x \<in> set ids) (map id (tasks st)))"
    by (simp add: task_findMany_in_def filter_map comp_def)
  with length_filter_distinct[OF assms, of ids] show ?thesis
    by simp
qed

lemma id_apply_layout [simp]: "id (apply_layout us now t) = id t"
  by (simp add: apply_layout_def split: option.splits)

lemma projectId_apply_layout [simp]: "projectId (apply_layout us now t) = projectId t"
  by (simp add: apply_layout_def split: option.splits)

lemma apply_layout_Nil [simp]: "apply_layout [] now t = t"
  by (simp add: apply_layout_def)

lemma apply_layout_unlisted:
  "id t \<notin> set (map BoardUpdateTask.id us) \<Longrightarrow> apply_layout us now t = t"
  by (induction us) (auto simp: apply_layout_def)

lemma apply_layout_listed:
  assumes "distinct (map BoardUpdateTask.id us)" and "u \<in> set us" and "BoardUpdateTask.id u = id t"
  shows "apply_layout us now t
           = t\<lparr>status := BoardUpdateTask.status u, order := BoardUpdateTask.order u, updatedAt := now\<rparr>"
  using assms
proof (induction us)
  case Nil
  then show ?case by simp
next
  case (Cons v us)
  show ?case
  proof (cases "BoardUpdateTask.id v = id t")
    case True
    with Cons.prems have "u = v"
      by (cases "u = v") (auto simp: image_iff)
    with True show ?thesis
      by (simp add: apply_layout_def)
  next
    case False
    with Cons show ?thesis
      by (auto simp: apply_layout_def)
  qed
qed

lemma apply_layout_Cons:
  assumes "BoardUpdateTask.id u \<notin> set (map BoardUpdateTask.id us)"
  shows "apply_layout us now
           (if id t = BoardUpdateTask.id u
            then (t\<lparr>status := BoardUpdateTask.status u, order := BoardUpdateTask.order u\<rparr>)\<lparr>updatedAt := now\<rparr>
            else t)
         = apply_layout (u # us) now t"
proof (cases "id t = BoardUpdateTask.id u")
  case True
  with assms have "apply_layout us now
      (t\<lparr>status := BoardUpdateTask.status u, order := BoardUpdateTask.order u, updatedAt := now\<rparr>)
      = t\<lparr>status := BoardUpdateTask.status u, order := BoardUpdateTask.order u, updatedAt := now\<rparr>"
    by (intro apply_layout_unlisted) simp
  with True show ?thesis
    by (simp add: apply_layout_def)
next
  case False
  then have "BoardUpdateTask.id u \<noteq> id t"
    by auto
  with False show ?thesis
    by (simp add: apply_layout_def)
qed

lemma transaction_layout:
  assumes "distinct (map BoardUpdateTask.id us)"
    and "set (map BoardUpdateTask.id us) \<subseteq> set (map id (tasks st))"
  shows "transaction
           (map (\<lambda>t. task_update (BoardUpdateTask.id t)
                        (\<lambda>row. row\<lparr>status := BoardUpdateTask.status t,
                                    order := BoardUpdateTask.order t\<rparr>) now) us) st
         = Inr (st\<lparr>tasks := map (apply_layout us now) (tasks st)\<rparr>)"
  using assms
proof (induction us arbitrary: st)
  case Nil
  then show ?case by simp
next
  case (Cons u us)
  let ?step = "\<lambda>t. if id t = BoardUpdateTask.id u
            then (t\<lparr>status := BoardUpdateTask.status u, order := BoardUpdateTask.order u\<rparr>)\<lparr>updatedAt := now\<rparr>
            else t"
  let ?st1 = "st\<lparr>tasks := map ?step (tasks st)\<rparr>"
  from Cons.prems have upd: "task_update (BoardUpdateTask.id u)
        (\<lambda>row. row\<lparr>status := BoardUpdateTask.status u, order := BoardUpdateTask.order u\<rparr>) now st
      = Inr ?st1"
    by (simp add: task_update_def)
  have ids: "map id (tasks ?st1) = map id (tasks st)"
    by (simp add: comp_def)
  from Cons.prems have d: "distinct (map BoardUpdateTask.id us)"
    and fresh: "BoardUpdateTask.id u \<notin> set (map BoardUpdateTask.id us)"
    and sub: "set (map BoardUpdateTask.id us) \<subseteq> set (map id (tasks ?st1))"
    by (simp_all only: ids) auto
  have "map (apply_layout us now) (tasks ?st1) = map (apply_layout (u # us) now) (tasks st)"
    using apply_layout_Cons[OF fresh, of now] by (simp add: comp_def)
  with Cons.IH[OF d sub] upd show ?case
    by simp
qed


lemma PUT_authorized:
  assumes pk: "distinct (map id (tasks st))"
    and auth: "memberOfProject st pid req = Inr m"
    and body: "BoardUpdateSchema (json req) = Some us"
  shows "PUT st pid req now =
           (if distinct (map BoardUpdateTask.id us)
               \<and> (\<forall>u\<in>set us. \<exists>t\<in>set (tasks st). id t = BoardUpdateTask.id u \<and> projectId t = pid)
            then (OkTrue, st\<lparr>tasks := map (apply_layout us now) (tasks st)\<rparr>)
            else (ErrorResponse ''TASKS_NOT_IN_PROJECT'' 400, st))"
proof -
  let ?ids = "map BoardUpdateTask.id us"
  let ?existing = "task_findMany_in st ?ids"
  let ?reject = "length ?existing \<noteq> length ?ids \<or> list_ex (\<lambda>t. projectId t \<noteq> pid) ?existing"
  have put: "PUT st pid req now =
      (if ?reject then (ErrorResponse ''TASKS_NOT_IN_PROJECT'' 400, st)
       else (case transaction
                    (map (\<lambda>t. task_update (BoardUpdateTask.id t)
                                 (\<lambda>row. row\<lparr>status := BoardUpdateTask.status t,
                                             order := BoardUpdateTask.order t\<rparr>) now) us) st of
               Inl e \<Rightarrow> (Uncaught e, st)
             | Inr st' \<Rightarrow> (OkTrue, st')))"
    using auth body by (simp add: PUT_def Let_def)
  from pk have inj: "inj_on id (set (tasks st))"
    by (simp add: distinct_map)
  show ?thesis
  proof (cases "distinct ?ids
               \<and> (\<forall>u\<in>set us. \<exists>t\<in>set (tasks st). id t = BoardUpdateTask.id u \<and> projectId t = pid)")
    case True
    then have d: "distinct ?ids"
      by simp
    have sub: "set ?ids \<subseteq> set (map id (tasks st))"
    proof
      fix x
      assume "x \<in> set ?ids"
      then obtain u where "u \<in> set us" "x = BoardUpdateTask.id u"
        by auto
      with True obtain t where "t \<in> set (tasks st)" "id t = x"
        by metis
      then show "x \<in> set (map id (tasks st))"
        by auto
    qed
    with d have len: "length ?existing = length ?ids"
      using length_task_findMany_in[OF pk, of ?ids] by blast
    have "\<not> list_ex (\<lambda>t. projectId t \<noteq> pid) ?existing"
    proof
      assume "list_ex (\<lambda>t. projectId t \<noteq> pid) ?existing"
      then obtain t where t: "t \<in> set (tasks st)" "id t \<in> set ?ids" "projectId t \<noteq> pid"
        by (auto simp: list_ex_iff task_findMany_in_def)
      then obtain u where "u \<in> set us" "BoardUpdateTask.id u = id t"
        by auto
      with True obtain t' where "t' \<in> set (tasks st)" "id t' = id t" "projectId t' = pid"
        by metis
      with inj t(1) have "t' = t"
        by (auto dest: inj_onD)
      with \<open>projectId t' = pid\<close> t(3) show False
        by simp
    qed
    with len have "\<not> ?reject"
      by simp
    with put transaction_layout[OF d sub, of now] True show ?thesis
      by simp
  next
    case False
    have "?reject"
    proof (cases "distinct ?ids \<and> set ?ids \<subseteq> set (map id (tasks st))")
      case False
      then show ?thesis
        using length_task_findMany_in[OF pk, of ?ids] by blast
    next
      case True
      with False obtain u where u: "u \<in> set us"
        "\<forall>t\<in>set (tasks st). id t = BoardUpdateTask.id u \<longrightarrow> projectId t \<noteq> pid"
        by blast
      with True obtain t where "t \<in> set (tasks st)" "id t = BoardUpdateTask.id u"
        by (auto simp: subset_iff image_iff)
      with u have "t \<in> set ?existing" "projectId t \<noteq> pid"
        by (auto simp: task_findMany_in_def)
      then show ?thesis
        by (auto simp: list_ex_iff)
    qed
    with put False show ?thesis
      by simp
  qed
qed

lemma BoardUpdateSchema_Some: "BoardUpdateSchema j = Some us \<Longrightarrow> j = Some us"
  by (auto simp: BoardUpdateSchema_def split: option.splits if_splits)

lemma PUT_OkTrue:
  assumes "PUT st pid req now = (OkTrue, st')"
  obtains m us where "memberOfProject st pid req = Inr m" "BoardUpdateSchema (json req) = Some us"
proof -
  from assms have "\<exists>m us. memberOfProject st pid req = Inr m \<and> BoardUpdateSchema (json req) = Some us"
    by (auto simp: PUT_def Let_def split: sum.splits option.splits if_splits)
  with that show thesis
    by blast
qed

lemma PUT_OkTrue_layout:
  assumes pk: "distinct (map id (tasks st))"
    and ok: "PUT st pid req now = (OkTrue, st')"
    and body: "json req = Some us"
  shows "distinct (map BoardUpdateTask.id us) \<and> st' = st\<lparr>tasks := map (apply_layout us now) (tasks st)\<rparr>"
proof -
  from ok obtain m us' where auth: "memberOfProject st pid req = Inr m"
    and sch: "BoardUpdateSchema (json req) = Some us'"
    by (rule PUT_OkTrue)
  from BoardUpdateSchema_Some[OF sch] body have "us' = us"
    by simp
  with PUT_authorized[OF pk auth sch, of now] ok show ?thesis
    by (auto split: if_splits)
qed

lemma flattenUpdates_numbering:
  "distinct (map (\<lambda>u. (BoardUpdateTask.status u, BoardUpdateTask.order u)) (flattenUpdates cols))"
  by (auto simp: flattenUpdates_def STATUSES_def distinct_map inj_on_def comp_def)

lemma layout_orders_distinct:
  assumes pk: "distinct (map id (tasks st))"
    and d: "distinct (map BoardUpdateTask.id us)"
    and covers: "\<forall>t\<in>set (partition_of (map (apply_layout us now) (tasks st)) pid s).
                   id t \<in> set (map BoardUpdateTask.id us)"
    and numbering: "distinct (map (\<lambda>u. (BoardUpdateTask.status u, BoardUpdateTask.order u)) us)"
  shows "distinct (map order (partition_of (map (apply_layout us now) (tasks st)) pid s))"
proof -
  let ?ts' = "map (apply_layout us now) (tasks st)"
  have ids': "map id ?ts' = map id (tasks st)"
    by (simp add: comp_def)
  with pk have pk': "distinct (map id ?ts')"
    by (simp only:)
  then have dts: "distinct ?ts'" and inj_id: "inj_on id (set ?ts')"
    by (simp_all only: distinct_map)
  from numbering have inj_num: "inj_on (\<lambda>u. (BoardUpdateTask.status u, BoardUpdateTask.order u)) (set us)"
    by (simp add: distinct_map)
  have listed: "\<exists>u\<in>set us. BoardUpdateTask.id u = id t' \<and> status t' = BoardUpdateTask.status u
                  \<and> order t' = BoardUpdateTask.order u"
    if "t' \<in> set (partition_of ?ts' pid s)" for t'
  proof -
    from that covers have "id t' \<in> set (map BoardUpdateTask.id us)"
      by blast
    then obtain u where u: "u \<in> set us" "BoardUpdateTask.id u = id t'"
      by auto
    from that obtain t where t: "t \<in> set (tasks st)" "t' = apply_layout us now t"
      by (auto simp: partition_of_def)
    with u have "BoardUpdateTask.id u = id t"
      by simp
    from apply_layout_listed[OF d u(1) this, of now] t(2) u show ?thesis
      by auto
  qed
  have "inj_on order (set (partition_of ?ts' pid s))"
  proof (rule inj_onI)
    fix a b
    assume a: "a \<in> set (partition_of ?ts' pid s)" and b: "b \<in> set (partition_of ?ts' pid s)"
      and eq: "order a = order b"
    from listed[OF a] obtain u where u: "u \<in> set us" "BoardUpdateTask.id u = id a"
      "status a = BoardUpdateTask.status u" "order a = BoardUpdateTask.order u"
      by blast
    from listed[OF b] obtain v where v: "v \<in> set us" "BoardUpdateTask.id v = id b"
      "status b = BoardUpdateTask.status v" "order b = BoardUpdateTask.order v"
      by blast
    from a b have "status a = s" "status b = s"
      by (simp_all add: partition_of_def)
    with u v eq have "(BoardUpdateTask.status u, BoardUpdateTask.order u)
        = (BoardUpdateTask.status v, BoardUpdateTask.order v)"
      by simp
    with inj_num u(1) v(1) have "u = v"
      by (auto dest: inj_onD)
    with u(2) v(2) have "id a = id b"
      by simp
    moreover from a b have "a \<in> set ?ts'" "b \<in> set ?ts'"
      by (simp_all add: partition_of_def)
    ultimately show "a = b"
      using inj_id by (auto dest: inj_onD)
  qed
  moreover from dts have "distinct (partition_of ?ts' pid s)"
    by (simp add: partition_of_def)
  ultimately show ?thesis
    by (simp add: distinct_map)
qed

subsection \<open>Patching and deleting a task\<close>

lemma PatchTaskSchema_assigneeId:
  assumes "PatchTaskSchema (Some d) = Some d'" and "PatchTaskData.assigneeId d = Some (Some a)"
  shows "PatchTaskData.assigneeId d' = Some (Some a) \<and> a \<noteq> []"
proof -
  from assms(1) have "PatchTaskData.assigneeId d' = PatchTaskData.assigneeId d"
    and "case PatchTaskData.assigneeId d of Some (Some a) \<Rightarrow> 1 \<le> length a | _ \<Rightarrow> True"
    by (auto simp: PatchTaskSchema_def Let_def split: if_splits)
  with assms(2) show ?thesis
    by auto
qed

lemma PATCH_assignee_rejected:
  assumes "task_findUnique st taskId = Some existing"
    and "json req = Some d"
    and "PatchTaskData.assigneeId d = Some (Some a)"
    and "projectMember_findUnique st (projectId existing) a = None"
  shows "PATCH st taskId req now =
           (case getMemberIdOrThrow req of
              Inl e \<Rightarrow> (ErrorResponse e 401, st)
            | Inr m \<Rightarrow>
                (case PatchTaskSchema (json req) of
                   None \<Rightarrow> (ErrorResponse ''INVALID_BODY'' 400, st)
                 | Some d' \<Rightarrow>
                     (case assertMemberInProject st (projectId existing) m of
                        Inl e \<Rightarrow> (ErrorResponse ''FORBIDDEN'' 403, st)
                      | Inr u \<Rightarrow> (ErrorResponse ''ASSIGNEE_NOT_IN_PROJECT'' 400, st))))"
proof (cases "getMemberIdOrThrow req")
  case (Inl e)
  then show ?thesis
    by (simp add: PATCH_def)
next
  case (Inr m)
  show ?thesis
  proof (cases "PatchTaskSchema (json req)")
    case None
    with Inr show ?thesis
      by (simp add: PATCH_def)
  next
    case (Some d')
    with assms(2,3) have a: "PatchTaskData.assigneeId d' = Some (Some a)" "a \<noteq> []"
      using PatchTaskSchema_assigneeId[of d d' a] by simp_all
    show ?thesis
    proof (cases "assertMemberInProject st (projectId existing) m")
      case (Inl e)
      with Inr Some assms(1) show ?thesis
        by (simp add: PATCH_def)
    next
      case (Inr u)
      with \<open>getMemberIdOrThrow req = Inr m\<close> Some assms(1,4) a show ?thesis
        by (simp add: PATCH_def)
    qed
  qed
qed

lemma Group_and_sort_filter:
  "Group_and_sort (filter Q ts) pid s = filter Q (Group_and_sort ts pid s)"
proof -
  have "partition_of (filter Q ts) pid s = filter Q (partition_of ts pid s)"
    by (simp add: partition_of_def conj_commute)
  then show ?thesis
    by (simp add: Group_and_sort_def filter_sort)
qed

lemma DELETE_authorized:
  assumes "task_findUnique st taskId = Some existing"
    and "getMemberIdOrThrow req = Inr m"
    and "assertMemberInProject st (projectId existing) m = Inr ()"
  shows "DELETE st taskId req = (OkTrue, st\<lparr>tasks := filter (\<lambda>t. id t \<noteq> taskId) (tasks st)\<rparr>)"
proof -
  from assms(1) have "taskId \<in> set (map id (tasks st))"
    by (auto simp: task_findUnique_def find_Some_iff)
  with assms show ?thesis
    by (simp add: DELETE_def task_delete_def)
qed

lemma DELETE_store:
  "snd (DELETE st taskId req) = st
   \<or> snd (DELETE st taskId req) = st\<lparr>tasks := filter (\<lambda>t. id t \<noteq> taskId) (tasks st)\<rparr>"
  by (auto simp: DELETE_def task_delete_def split: sum.splits option.splits)

section \<open>The properties of the specification\<close>

text \<open>
  C9. Every invite code that \<^verbatim>\<open>generateInviteCode()\<close> returns has 8 characters, all from
  the alphabet, which has 32 different symbols and none of \<open>I\<close>, \<open>O\<close>, \<open>0\<close>, \<open>1\<close>. Project
  creation tries at most 8 codes: a project that is created carries the code of one of
  the 8 attempts, a code no earlier project has, and is the only project added; any other
  answer adds no project. When the body is valid and all 8 codes are taken the answer is
  \<^verbatim>\<open>INVITE_CODE_GENERATION_FAILED\<close> (500); when some attempt has a free code and a free
  project identifier, a project is created.
\<close>

theorem invite_code_generation:
  "length (generateInviteCode 8 bytes) = 8
   \<and> set (generateInviteCode 8 bytes) \<subseteq> set alphabet
   \<and> length alphabet = 32 \<and> distinct alphabet \<and> set ''IO01'' \<inter> set alphabet = {}
   \<and> (case POST_projects st req e of
         (ProjectResponse p m, st') \<Rightarrow>
            (\<exists>a<8. inviteCode p = generateInviteCode 8 (randomBytes e a))
            \<and> inviteCode p \<notin> set (map inviteCode (projects st))
            \<and> projects st' = projects st @ [p]
       | (r, st') \<Rightarrow> projects st' = projects st)
   \<and> (CreateProjectSchema (json req) \<noteq> None
        \<and> newMemberId e \<notin> set (map Member.id (members st))
        \<and> (\<forall>a<8. generateInviteCode 8 (randomBytes e a) \<in> set (map inviteCode (projects st)))
       \<longrightarrow> fst (POST_projects st req e) = ErrorResponse ''INVITE_CODE_GENERATION_FAILED'' 500)
   \<and> (CreateProjectSchema (json req) \<noteq> None
        \<and> newMemberId e \<notin> set (map Member.id (members st))
        \<and> (\<exists>a<8. generateInviteCode 8 (randomBytes e a) \<notin> set (map inviteCode (projects st))
                  \<and> newProjectId e a \<notin> set (map Project.id (projects st)))
       \<longrightarrow> (\<exists>p m. fst (POST_projects st req e) = ProjectResponse p m))"
proof -
  obtain r st' where run: "POST_projects st req e = (r, st')"
    by (cases "POST_projects st req e")
  have "case POST_projects st req e of
         (ProjectResponse p m, st') \<Rightarrow>
            (\<exists>a<8. inviteCode p = generateInviteCode 8 (randomBytes e a))
            \<and> inviteCode p \<notin> set (map inviteCode (projects st))
            \<and> projects st' = projects st @ [p]
       | (r, st') \<Rightarrow> projects st' = projects st"
    using POST_projects_cases[OF run] by (simp add: run split: response.splits)
  then show ?thesis
    using length_generateInviteCode[of 8 bytes] set_generateInviteCode[of 8 bytes]
      length_alphabet distinct_alphabet alphabet_unambiguous
      POST_projects_exhausted[of req e st] POST_projects_retries[of req e st]
    by blast
qed


theorem invite_code_generation_witness:
  "generateInviteCode 8 (\<lambda>i. 0) = ''AAAAAAAA''
   \<and> fst (POST_projects store_one_project create_project_request env_all_collide)
       = ErrorResponse ''INVITE_CODE_GENERATION_FAILED'' 500
   \<and> map inviteCode (projects (snd (POST_projects store_one_project create_project_request
         env_second_attempt))) = [''AAAAAAAA'', ''BBBBBBBB'']"
proof -
  note thm1 = invite_code_generation[where st = store_one_project
      and req = create_project_request and e = env_all_collide and bytes = "\<lambda>i. 0"]
  note thm2 = invite_code_generation[where st = store_one_project
      and req = create_project_request and e = env_second_attempt and bytes = "\<lambda>i. 0"]
  have a: "generateInviteCode 8 (\<lambda>i. 0) = ''AAAAAAAA''"
    by code_simp
  have b: "generateInviteCode 8 (\<lambda>i. 1) = ''BBBBBBBB''"
    by code_simp
  have v: "CreateProjectSchema (json create_project_request) \<noteq> None"
    by code_simp
  have m1: "newMemberId env_all_collide \<notin> set (map Member.id (members store_one_project))"
    and m2: "newMemberId env_second_attempt \<notin> set (map Member.id (members store_one_project))"
    by (simp_all add: env_all_collide_def env_second_attempt_def store_one_project_def)
  have codes: "map inviteCode (projects store_one_project) = [''AAAAAAAA'']"
    by (simp add: store_one_project_def)
  have "\<forall>a<8. generateInviteCode 8 (randomBytes env_all_collide a)
           \<in> set (map inviteCode (projects store_one_project))"
    by (simp add: codes env_all_collide_def a)
  with thm1 v m1
  have c: "fst (POST_projects store_one_project create_project_request env_all_collide)
       = ErrorResponse ''INVITE_CODE_GENERATION_FAILED'' 500"
    by blast
  have "generateInviteCode 8 (randomBytes env_second_attempt 1)
           \<notin> set (map inviteCode (projects store_one_project))
        \<and> newProjectId env_second_attempt 1 \<notin> set (map Project.id (projects store_one_project))"
    by (simp add: codes env_second_attempt_def b) (simp add: store_one_project_def)
  then have "\<exists>a<8. generateInviteCode 8 (randomBytes env_second_attempt a)
           \<notin> set (map inviteCode (projects store_one_project))
        \<and> newProjectId env_second_attempt a \<notin> set (map Project.id (projects store_one_project))"
    by (intro exI[of _ 1]) simp
  with thm2 v m2
  have "\<exists>p m. fst (POST_projects store_one_project create_project_request env_second_attempt)
      = ProjectResponse p m"
    by blast
  then obtain p m st' where run:
    "POST_projects store_one_project create_project_request env_second_attempt
      = (ProjectResponse p m, st')"
    by (metis prod.collapse)
  with thm2
  obtain k where k: "inviteCode p = generateInviteCode 8 (randomBytes env_second_attempt k)"
    and fresh: "inviteCode p \<notin> set (map inviteCode (projects store_one_project))"
    and st': "projects st' = projects store_one_project @ [p]"
    by auto
  have "inviteCode p = ''BBBBBBBB''"
  proof (cases "k = 0")
    case True
    with k fresh codes a show ?thesis
      by (simp add: env_second_attempt_def)
  next
    case False
    with k b show ?thesis
      by (simp add: env_second_attempt_def)
  qed
  with st' codes have "map inviteCode (projects st') = [''AAAAAAAA'', ''BBBBBBBB'']"
    by simp
  with a c run show ?thesis
    by simp
qed

text \<open>
  C2. An Append (\<^verbatim>\<open>POST\<close> of a task) that creates a task gives it the order 0 when the
  (project, status) partition it joins has no task, and 1 + the greatest order of the
  partition otherwise; the task is the one row added to the table, in the project of the
  route. The append does create a task when the caller is a member of the project, the
  body passes the schema, the assignee (if any) is a member and the new identifier is
  free.
\<close>

theorem append_order:
  "(POST st pid req newId now = (TaskResponse t, st') \<longrightarrow>
      order t = (if partition_of (tasks st) pid (status t) = [] then 0
                 else 1 + Max (order ` set (partition_of (tasks st) pid (status t))))
      \<and> (\<exists>row. tasks st' = tasks st @ [row] \<and> select_task row = t \<and> projectId row = pid))
   \<and> (memberOfProject st pid req = Inr m \<and> CreateTaskSchema (json req) = Some d
       \<and> (case CreateTaskData.assigneeId d of None \<Rightarrow> True
           | Some a \<Rightarrow> projectMember_findUnique st pid a \<noteq> None)
       \<and> newId \<notin> set (map id (tasks st))
      \<longrightarrow> (\<exists>t' st''. POST st pid req newId now = (TaskResponse t', st'')))"
proof (intro conjI impI)
  assume run: "POST st pid req newId now = (TaskResponse t, st')"
  then show "order t = (if partition_of (tasks st) pid (status t) = [] then 0
                 else 1 + Max (order ` set (partition_of (tasks st) pid (status t))))"
    by (rule POST_order_value)
  from run obtain row where "st' = st\<lparr>tasks := tasks st @ [row]\<rparr>" "t = select_task row"
    "projectId row = pid"
    by (rule POST_TaskResponse)
  then show "\<exists>row. tasks st' = tasks st @ [row] \<and> select_task row = t \<and> projectId row = pid"
    by auto
next
  assume "memberOfProject st pid req = Inr m \<and> CreateTaskSchema (json req) = Some d
       \<and> (case CreateTaskData.assigneeId d of None \<Rightarrow> True
           | Some a \<Rightarrow> projectMember_findUnique st pid a \<noteq> None)
       \<and> newId \<notin> set (map id (tasks st))"
  then show "\<exists>t' st''. POST st pid req newId now = (TaskResponse t', st'')"
    using POST_succeeds[of st pid req m d newId now] by blast
qed

theorem append_order_witness:
  "POST board_store ''p'' append_request ''F'' 30
     = (TaskResponse (select_task appended_task),
        board_store\<lparr>tasks := tasks board_store @ [appended_task]\<rparr>)
   \<and> order (select_task appended_task) = 2
   \<and> map order (partition_of (tasks board_store) ''p'' TODO) = [1, 0, 0]"
proof -
  have run: "POST board_store ''p'' append_request ''F'' 30
     = (TaskResponse (select_task appended_task),
        board_store\<lparr>tasks := tasks board_store @ [appended_task]\<rparr>)"
    by code_simp
  have part: "map order (partition_of (tasks board_store) ''p'' TODO) = [1, 0, 0]"
    by code_simp
  then have img: "order ` set (partition_of (tasks board_store) ''p'' TODO) = {1, 0}"
    by (metis (no_types) insert_absorb2 list.simps(15) empty_set set_map)
  have st: "status (select_task appended_task) = TODO"
    by (simp add: appended_task_def)
  from part have ne: "partition_of (tasks board_store) ''p'' TODO \<noteq> []"
    by auto
  from append_order[where st = board_store and pid = "''p''" and req = append_request
      and newId = "''F''" and now = 30 and t = "select_task appended_task"
      and st' = "board_store\<lparr>tasks := tasks board_store @ [appended_task]\<rparr>"] run
  have "order (select_task appended_task) =
      (if partition_of (tasks board_store) ''p'' (status (select_task appended_task)) = [] then 0
       else 1 + Max (order ` set (partition_of (tasks board_store) ''p''
              (status (select_task appended_task)))))"
    by blast
  with st ne img have "order (select_task appended_task) = 2"
    by simp
  with run part show ?thesis
    by simp
qed

text \<open>
  C4. Group-and-sort (the board that \<^verbatim>\<open>GET\<close> answers, grouped by \<^verbatim>\<open>groupByStatus\<close>) leaves
  the store as it was; each of the three sequences is the project's partition of that
  status sorted by order ascending, ties broken by creation time ascending, and every task
  of the project is in exactly one of them. Two runs on the same task table give the same
  three sequences, whoever the caller and whatever the back end's status order. The board
  is answered whenever the caller is a member and the project exists.
\<close>

theorem board_group_and_sort:
  "snd (GET st pid req) = st
   \<and> (refresh st pid req = Some cols \<longrightarrow>
        (\<forall>s. cols s = map select_task (Group_and_sort (tasks st) pid s)
             \<and> sorted (map (\<lambda>t. (order t, createdAt t)) (cols s)))
        \<and> length (cols TODO) + length (cols DOING) + length (cols DONE)
            = length (filter (\<lambda>t. projectId t = pid) (tasks st)))
   \<and> (refresh st pid req = Some cols \<and> refresh st2 pid req2 = Some cols2
        \<and> tasks st2 = tasks st \<longrightarrow> cols2 = cols)
   \<and> (memberOfProject st pid req = Inr m \<and> project_findUnique st pid = Some p
        \<longrightarrow> refresh st pid req \<noteq> None)"
proof (intro conjI impI allI)
  show "snd (GET st pid req) = st"
    by (rule GET_pure)
next
  assume "refresh st pid req = Some cols \<and> refresh st2 pid req2 = Some cols2
        \<and> tasks st2 = tasks st"
  then have "cols2 s = cols s" for s
    using refresh_column[of st pid req cols s] refresh_column[of st2 pid req2 cols2 s] by simp
  then show "cols2 = cols"
    by (rule ext)
next
  fix s
  assume "refresh st pid req = Some cols"
  then have cols: "cols s = map select_task (Group_and_sort (tasks st) pid s)"
    by (rule refresh_column)
  then show "cols s = map select_task (Group_and_sort (tasks st) pid s)" .
  have "map (\<lambda>t. (order t, createdAt t)) (cols s)
      = map (\<lambda>t. (order t, createdAt t)) (Group_and_sort (tasks st) pid s)"
    by (simp add: cols comp_def)
  then show "sorted (map (\<lambda>t. (order t, createdAt t)) (cols s))"
    by (simp only: sorted_Group_and_sort)
next
  assume "refresh st pid req = Some cols"
  then have "\<And>s. cols s = map select_task (Group_and_sort (tasks st) pid s)"
    by (rule refresh_column)
  then show "length (cols TODO) + length (cols DOING) + length (cols DONE)
            = length (filter (\<lambda>t. projectId t = pid) (tasks st))"
    by (simp add: length_Group_and_sort length_partitions)
next
  assume "memberOfProject st pid req = Inr m \<and> project_findUnique st pid = Some p"
  then show "refresh st pid req \<noteq> None"
    by (simp add: refresh_succeeds)
qed

theorem board_group_and_sort_witness:
  "map (\<lambda>s. map id (the (refresh board_store ''p'' member_request) s)) [TODO, DOING, DONE]
     = [[''C'', ''B'', ''A''], [], [''D'']]"
proof -
  note inst = board_group_and_sort[where st = board_store and pid = "''p''" and req = member_request]
  have "memberOfProject board_store ''p'' member_request = Inr ''m''"
    by code_simp
  moreover have "project_findUnique board_store ''p'' = Some (hd (projects board_store))"
    by code_simp
  ultimately have "refresh board_store ''p'' member_request \<noteq> None"
    using inst by blast
  then obtain cols where r: "refresh board_store ''p'' member_request = Some cols"
    by blast
  with inst[where cols = cols]
  have cols: "\<And>s. cols s = map select_task (Group_and_sort (tasks board_store) ''p'' s)"
    by blast
  have "map (\<lambda>s. map id (map select_task (Group_and_sort (tasks board_store) ''p'' s)))
          [TODO, DOING, DONE] = [[''C'', ''B'', ''A''], [], [''D'']]"
    by code_simp
  with r cols show ?thesis
    by simp
qed

text \<open>
  C8. With no other write in between, an Append followed by Group-and-sort has the new
  task last in the column of its status.
\<close>

theorem append_then_group_and_sort:
  assumes "POST st pid req newId now = (TaskResponse t, st')"
    and "refresh st' pid req' = Some cols"
  shows "cols (status t) \<noteq> [] \<and> last (cols (status t)) = t"
proof -
  from assms(2) have "cols (status t) = map select_task (Group_and_sort (tasks st') pid (status t))"
    by (rule refresh_column)
  with append_last[OF assms(1)] show ?thesis
    by (simp add: last_map)
qed

theorem append_then_group_and_sort_witness:
  "map id (the (refresh (snd (POST board_store ''p'' append_request ''F'' 30)) ''p'' member_request)
       TODO) = [''C'', ''B'', ''A'', ''F'']
   \<and> last (the (refresh (snd (POST board_store ''p'' append_request ''F'' 30)) ''p'' member_request)
       TODO) = select_task appended_task"
proof -
  let ?st' = "board_store\<lparr>tasks := tasks board_store @ [appended_task]\<rparr>"
  have run: "POST board_store ''p'' append_request ''F'' 30
     = (TaskResponse (select_task appended_task), ?st')"
    by code_simp
  have "memberOfProject ?st' ''p'' member_request = Inr ''m''"
    by code_simp
  moreover have "project_findUnique ?st' ''p'' = Some (hd (projects board_store))"
    by code_simp
  ultimately obtain cols where r: "refresh ?st' ''p'' member_request = Some cols"
    using refresh_succeeds by blast
  from append_then_group_and_sort[OF run r]
  have l: "last (cols TODO) = select_task appended_task"
    by (simp add: appended_task_def)
  have "map id (map select_task (Group_and_sort (tasks ?st') ''p'' TODO)) = [''C'', ''B'', ''A'', ''F'']"
    by code_simp
  with refresh_column[OF r, of TODO] have "map id (cols TODO) = [''C'', ''B'', ''A'', ''F'']"
    by simp
  with l r run show ?thesis
    by simp
qed

text \<open>
  C3. Two Appends on the same (project, status) partition that run one after the other
  (the second starts on the store the first has left) never receive the same order: the
  second task's order is the first's plus one, and on an empty partition the orders are 0
  and 1. The counterexample is the overlapping schedule, where both appends into an empty
  partition receive the order 0.
\<close>

theorem sequential_appends:
  assumes "POST st pid req1 newId1 now1 = (TaskResponse t1, st1)"
    and "POST st1 pid req2 newId2 now2 = (TaskResponse t2, st2)"
    and "status t2 = status t1"
  shows "order t2 = order t1 + 1 \<and> order t2 \<noteq> order t1
         \<and> (partition_of (tasks st) pid (status t1) = [] \<longrightarrow> order t1 = 0 \<and> order t2 = 1)"
  using POST_POST_order[OF assms] POST_order_value[OF assms(1)] by simp

theorem sequential_appends_witness:
  "POST empty_board ''p'' append_doing ''T1'' 40
     = (TaskResponse (select_task (doing_task ''T1'' 0 40)),
        empty_board\<lparr>tasks := [doing_task ''T1'' 0 40]\<rparr>)
   \<and> POST (empty_board\<lparr>tasks := [doing_task ''T1'' 0 40]\<rparr>) ''p'' append_doing ''T2'' 41
     = (TaskResponse (select_task (doing_task ''T2'' 1 41)),
        empty_board\<lparr>tasks := [doing_task ''T1'' 0 40, doing_task ''T2'' 1 41]\<rparr>)
   \<and> order (select_task (doing_task ''T2'' 1 41)) \<noteq> order (select_task (doing_task ''T1'' 0 40))"
proof -
  have one: "POST empty_board ''p'' append_doing ''T1'' 40
     = (TaskResponse (select_task (doing_task ''T1'' 0 40)),
        empty_board\<lparr>tasks := [doing_task ''T1'' 0 40]\<rparr>)"
    by code_simp
  have two: "POST (empty_board\<lparr>tasks := [doing_task ''T1'' 0 40]\<rparr>) ''p'' append_doing ''T2'' 41
     = (TaskResponse (select_task (doing_task ''T2'' 1 41)),
        empty_board\<lparr>tasks := [doing_task ''T1'' 0 40, doing_task ''T2'' 1 41]\<rparr>)"
    by code_simp
  have same: "status (select_task (doing_task ''T2'' 1 41)) = status (select_task (doing_task ''T1'' 0 40))"
    by (simp add: doing_task_def)
  from sequential_appends[OF one two same] one two show ?thesis
    by simp
qed

theorem overlapping_appends_counterexample:
  "overlapping_POSTs empty_board ''p'' append_doing append_doing ''T1'' ''T2'' 40
     = (TaskResponse (select_task (doing_task ''T1'' 0 40)),
        TaskResponse (select_task (doing_task ''T2'' 0 40)),
        empty_board\<lparr>tasks := [doing_task ''T1'' 0 40, doing_task ''T2'' 0 40]\<rparr>)
   \<and> order (select_task (doing_task ''T1'' 0 40)) = order (select_task (doing_task ''T2'' 0 40))"
  by code_simp

text \<open>
  C1. For an Apply-layout batch (\<^verbatim>\<open>PUT\<close>) from a member of the project that passes the
  schema, on a table whose task identifiers are unique: when the listed identifiers are
  pairwise different and each is a task of the target project, every row is replaced by
  its image under the layout, all in one step (a listed task takes the status and order
  of its entry, an unlisted task is unchanged); otherwise the answer is
  \<^verbatim>\<open>TASKS_NOT_IN_PROJECT\<close> (400) and the store is unchanged. The counterexample is a batch
  that lists an existing task of the project twice: it is rejected.
\<close>

theorem apply_layout_all_or_nothing:
  assumes "distinct (map id (tasks st))"
    and "memberOfProject st pid req = Inr m"
    and "BoardUpdateSchema (json req) = Some us"
  shows "PUT st pid req now =
           (if distinct (map BoardUpdateTask.id us)
               \<and> (\<forall>u\<in>set us. \<exists>t\<in>set (tasks st). id t = BoardUpdateTask.id u \<and> projectId t = pid)
            then (OkTrue, st\<lparr>tasks := map (apply_layout us now) (tasks st)\<rparr>)
            else (ErrorResponse ''TASKS_NOT_IN_PROJECT'' 400, st))
         \<and> (distinct (map BoardUpdateTask.id us) \<longrightarrow>
              (\<forall>u\<in>set us. \<forall>t. id t = BoardUpdateTask.id u \<longrightarrow>
                 apply_layout us now t
                   = t\<lparr>status := BoardUpdateTask.status u, order := BoardUpdateTask.order u,
                        updatedAt := now\<rparr>))
         \<and> (\<forall>t. id t \<notin> set (map BoardUpdateTask.id us) \<longrightarrow> apply_layout us now t = t)"
proof (intro conjI impI ballI allI)
  show "PUT st pid req now =
           (if distinct (map BoardUpdateTask.id us)
               \<and> (\<forall>u\<in>set us. \<exists>t\<in>set (tasks st). id t = BoardUpdateTask.id u \<and> projectId t = pid)
            then (OkTrue, st\<lparr>tasks := map (apply_layout us now) (tasks st)\<rparr>)
            else (ErrorResponse ''TASKS_NOT_IN_PROJECT'' 400, st))"
    using assms by (rule PUT_authorized)
next
  fix u and t :: Task
  assume "distinct (map BoardUpdateTask.id us)" "u \<in> set us" "id t = BoardUpdateTask.id u"
  then show "apply_layout us now t
       = t\<lparr>status := BoardUpdateTask.status u, order := BoardUpdateTask.order u, updatedAt := now\<rparr>"
    by (intro apply_layout_listed) simp_all
next
  fix t :: Task
  assume "id t \<notin> set (map BoardUpdateTask.id us)"
  then show "apply_layout us now t = t"
    by (rule apply_layout_unlisted)
qed

theorem apply_layout_all_or_nothing_witness:
  "PUT board_store ''p'' layout_request 50
     = (OkTrue, board_store\<lparr>tasks :=
          map (apply_layout (flattenUpdates moved_columns) 50) (tasks board_store)\<rparr>)
   \<and> map (\<lambda>t. (id t, status t, order t))
        (map (apply_layout (flattenUpdates moved_columns) 50) (tasks board_store))
     = [(''A'', TODO, 1), (''B'', TODO, 0), (''C'', TODO, 2), (''D'', DONE, 0), (''E'', TODO, 7)]
   \<and> PUT board_store ''p'' foreign_layout_request 50
     = (ErrorResponse ''TASKS_NOT_IN_PROJECT'' 400, board_store)"
proof -
  have pk: "distinct (map id (tasks board_store))"
    by code_simp
  have auth: "memberOfProject board_store ''p'' layout_request = Inr ''m''"
    "memberOfProject board_store ''p'' foreign_layout_request = Inr ''m''"
    by code_simp+
  have body: "BoardUpdateSchema (json layout_request) = Some (flattenUpdates moved_columns)"
    by code_simp
  have body': "BoardUpdateSchema (json foreign_layout_request)
      = Some [layout_entry ''A'' TODO 0, layout_entry ''E'' TODO 1]"
    by code_simp
  have listed: "distinct (map BoardUpdateTask.id (flattenUpdates moved_columns))
      \<and> (\<forall>u\<in>set (flattenUpdates moved_columns).
            \<exists>t\<in>set (tasks board_store). id t = BoardUpdateTask.id u \<and> projectId t = ''p'')"
    by code_simp
  have foreign: "\<not> (distinct (map BoardUpdateTask.id [layout_entry ''A'' TODO 0, layout_entry ''E'' TODO 1])
      \<and> (\<forall>u\<in>set [layout_entry ''A'' TODO 0, layout_entry ''E'' TODO 1].
            \<exists>t\<in>set (tasks board_store). id t = BoardUpdateTask.id u \<and> projectId t = ''p''))"
    by code_simp
  have rows: "map (\<lambda>t. (id t, status t, order t))
        (map (apply_layout (flattenUpdates moved_columns) 50) (tasks board_store))
     = [(''A'', TODO, 1), (''B'', TODO, 0), (''C'', TODO, 2), (''D'', DONE, 0), (''E'', TODO, 7)]"
    by code_simp
  from apply_layout_all_or_nothing[OF pk auth(1) body, of 50] listed
  have one: "PUT board_store ''p'' layout_request 50
     = (OkTrue, board_store\<lparr>tasks :=
          map (apply_layout (flattenUpdates moved_columns) 50) (tasks board_store)\<rparr>)"
    by simp
  from apply_layout_all_or_nothing[OF pk auth(2) body', of 50] foreign
  have two: "PUT board_store ''p'' foreign_layout_request 50
     = (ErrorResponse ''TASKS_NOT_IN_PROJECT'' 400, board_store)"
    by simp
  from one rows two show ?thesis
    by simp
qed

theorem duplicate_layout_counterexample:
  "task_findUnique board_store ''A'' = Some (example_task ''A'' ''p'' TODO 1 10)
   \<and> projectId (example_task ''A'' ''p'' TODO 1 10) = ''p''
   \<and> map BoardUpdateTask.id (the (json duplicate_layout_request)) = [''A'', ''A'']
   \<and> memberOfProject board_store ''p'' duplicate_layout_request = Inr ''m''
   \<and> BoardUpdateSchema (json duplicate_layout_request) = json duplicate_layout_request
   \<and> PUT board_store ''p'' duplicate_layout_request 50
       = (ErrorResponse ''TASKS_NOT_IN_PROJECT'' 400, board_store)"
  by code_simp

text \<open>
  C5. After an Apply-layout that succeeds, with a batch that lists every task of a
  (project, status) partition and gives no two entries the same (status, order) pair (as
  the client's \<^verbatim>\<open>flattenUpdates\<close> does), the orders of the partition's tasks are pairwise
  different. The counterexample is a batch that gives two tasks of a column the order 0:
  it is accepted and leaves the tie.
\<close>

theorem layout_orders_free_of_ties:
  assumes "distinct (map id (tasks st))"
    and "PUT st pid req now = (OkTrue, st')"
    and "json req = Some us"
    and "\<forall>t\<in>set (partition_of (tasks st') pid s). id t \<in> set (map BoardUpdateTask.id us)"
    and "distinct (map (\<lambda>u. (BoardUpdateTask.status u, BoardUpdateTask.order u)) us)"
  shows "distinct (map order (partition_of (tasks st') pid s))"
proof -
  from PUT_OkTrue_layout[OF assms(1,2,3)]
  have d: "distinct (map BoardUpdateTask.id us)"
    and st': "tasks st' = map (apply_layout us now) (tasks st)"
    by simp_all
  from layout_orders_distinct[OF assms(1) d assms(4)[unfolded st'] assms(5)] st' show ?thesis
    by simp
qed

theorem layout_orders_free_of_ties_witness:
  "fst (PUT board_store ''p'' layout_request 50) = OkTrue
   \<and> map order (partition_of (tasks (snd (PUT board_store ''p'' layout_request 50))) ''p'' TODO)
       = [1, 0, 2]
   \<and> distinct (map order
        (partition_of (tasks (snd (PUT board_store ''p'' layout_request 50))) ''p'' TODO))"
proof -
  let ?st' = "snd (PUT board_store ''p'' layout_request 50)"
  have pk: "distinct (map id (tasks board_store))"
    by code_simp
  have ok: "fst (PUT board_store ''p'' layout_request 50) = OkTrue"
    by code_simp
  then have run: "PUT board_store ''p'' layout_request 50 = (OkTrue, ?st')"
    by (metis prod.collapse)
  have body: "json layout_request = Some (flattenUpdates moved_columns)"
    by (simp add: layout_request_def)
  have covers: "\<forall>t\<in>set (partition_of (tasks ?st') ''p'' TODO).
      id t \<in> set (map BoardUpdateTask.id (flattenUpdates moved_columns))"
    by code_simp
  have orders: "map order (partition_of (tasks ?st') ''p'' TODO) = [1, 0, 2]"
    by code_simp
  from layout_orders_free_of_ties[OF pk run body covers flattenUpdates_numbering] ok orders
  show ?thesis
    by simp
qed

theorem tied_layout_counterexample:
  "fst (PUT board_store ''p'' tie_layout_request 50) = OkTrue
   \<and> map id (partition_of (tasks (snd (PUT board_store ''p'' tie_layout_request 50))) ''p'' TODO)
       = [''A'', ''B'', ''C'']
   \<and> map BoardUpdateTask.id (the (json tie_layout_request)) = [''A'', ''B'', ''C'']
   \<and> map order (partition_of (tasks (snd (PUT board_store ''p'' tie_layout_request 50))) ''p'' TODO)
       = [0, 0, 1]"
  by code_simp

text \<open>
  C6. A Patch-task (\<^verbatim>\<open>PATCH\<close>) of an existing task whose body sets \<^verbatim>\<open>assigneeId\<close> to a
  string that is not a member of the task's project leaves the store, and so every field
  of the task, unchanged and answers with an error; when the caller carries a member
  identity, the body passes the schema and the caller is a member of the task's project,
  the error is \<^verbatim>\<open>ASSIGNEE_NOT_IN_PROJECT\<close> (400).
\<close>

theorem patch_assignee_not_in_project:
  assumes "task_findUnique st taskId = Some existing"
    and "json req = Some d"
    and "PatchTaskData.assigneeId d = Some (Some a)"
    and "projectMember_findUnique st (projectId existing) a = None"
  shows "snd (PATCH st taskId req now) = st
         \<and> task_findUnique (snd (PATCH st taskId req now)) taskId = Some existing
         \<and> (\<exists>code n. fst (PATCH st taskId req now) = ErrorResponse code n)
         \<and> (getMemberIdOrThrow req = Inr m \<and> PatchTaskSchema (json req) \<noteq> None
              \<and> assertMemberInProject st (projectId existing) m = Inr ()
            \<longrightarrow> PATCH st taskId req now = (ErrorResponse ''ASSIGNEE_NOT_IN_PROJECT'' 400, st))"
proof -
  note run = PATCH_assignee_rejected[OF assms, of now]
  have unchanged: "snd (PATCH st taskId req now) = st"
    unfolding run by (simp split: sum.splits option.splits)
  have rejected: "\<exists>code n. fst (PATCH st taskId req now) = ErrorResponse code n"
    unfolding run by (simp split: sum.splits option.splits)
  have "PATCH st taskId req now = (ErrorResponse ''ASSIGNEE_NOT_IN_PROJECT'' 400, st)"
    if "getMemberIdOrThrow req = Inr m" "PatchTaskSchema (json req) \<noteq> None"
      "assertMemberInProject st (projectId existing) m = Inr ()"
    using that unfolding run by auto
  with unchanged rejected assms(1) show ?thesis
    by simp
qed

theorem patch_assignee_not_in_project_witness:
  "PATCH board_store ''A'' patch_assign_request 60
     = (ErrorResponse ''ASSIGNEE_NOT_IN_PROJECT'' 400, board_store)
   \<and> task_findUnique board_store ''A'' = Some (example_task ''A'' ''p'' TODO 1 10)"
proof -
  have ex: "task_findUnique board_store ''A'' = Some (example_task ''A'' ''p'' TODO 1 10)"
    by code_simp
  have body: "json patch_assign_request = Some (the (json patch_assign_request))"
    by (simp add: patch_assign_request_def)
  have asg: "PatchTaskData.assigneeId (the (json patch_assign_request)) = Some (Some ''stranger'')"
    by (simp add: patch_assign_request_def)
  have nm: "projectMember_findUnique board_store
      (projectId (example_task ''A'' ''p'' TODO 1 10)) ''stranger'' = None"
    by code_simp
  have auth: "getMemberIdOrThrow patch_assign_request = Inr ''m''"
    "PatchTaskSchema (json patch_assign_request) \<noteq> None"
    "assertMemberInProject board_store (projectId (example_task ''A'' ''p'' TODO 1 10)) ''m'' = Inr ()"
    by code_simp+
  from patch_assignee_not_in_project[OF ex body asg nm, of 60 "''m''"] auth ex show ?thesis
    by simp
qed

text \<open>
  C7. A Delete-task (\<^verbatim>\<open>DELETE\<close>) of an existing task never changes another task's row:
  every other row is in the table afterwards as it was, and no row is added. When the
  caller is a member of the task's project the answer is \<^verbatim>\<open>{ ok: true }\<close>, the task's row
  is gone, and Group-and-sort of any (project, status) partition, as well as the column
  the board shows for it, is the sequence it was with the deleted task left out.
\<close>

theorem delete_does_not_renumber:
  assumes "task_findUnique st taskId = Some existing"
  shows "(\<forall>t\<in>set (tasks st). id t \<noteq> taskId \<longrightarrow> t \<in> set (tasks (snd (DELETE st taskId req))))
         \<and> set (tasks (snd (DELETE st taskId req))) \<subseteq> set (tasks st)
         \<and> (getMemberIdOrThrow req = Inr m \<and> assertMemberInProject st (projectId existing) m = Inr ()
            \<longrightarrow> DELETE st taskId req = (OkTrue, st\<lparr>tasks := filter (\<lambda>t. id t \<noteq> taskId) (tasks st)\<rparr>)
                \<and> taskId \<notin> set (map id (tasks (snd (DELETE st taskId req))))
                \<and> (\<forall>pid s. Group_and_sort (tasks (snd (DELETE st taskId req))) pid s
                             = filter (\<lambda>t. id t \<noteq> taskId) (Group_and_sort (tasks st) pid s))
                \<and> (\<forall>pid r cols cols' s.
                      refresh st pid r = Some cols
                      \<and> refresh (snd (DELETE st taskId req)) pid r = Some cols'
                      \<longrightarrow> cols' s = filter (\<lambda>t. id t \<noteq> taskId) (cols s)))"
proof (intro conjI impI)
  from DELETE_store[of st taskId req]
  show "\<forall>t\<in>set (tasks st). id t \<noteq> taskId \<longrightarrow> t \<in> set (tasks (snd (DELETE st taskId req)))"
    by auto
  from DELETE_store[of st taskId req]
  show "set (tasks (snd (DELETE st taskId req))) \<subseteq> set (tasks st)"
    by auto
next
  assume "getMemberIdOrThrow req = Inr m \<and> assertMemberInProject st (projectId existing) m = Inr ()"
  with DELETE_authorized[OF assms, of req m]
  have run: "DELETE st taskId req = (OkTrue, st\<lparr>tasks := filter (\<lambda>t. id t \<noteq> taskId) (tasks st)\<rparr>)"
    by simp
  then show "DELETE st taskId req = (OkTrue, st\<lparr>tasks := filter (\<lambda>t. id t \<noteq> taskId) (tasks st)\<rparr>)" .
  from run show "taskId \<notin> set (map id (tasks (snd (DELETE st taskId req))))"
    by auto
  from run have gs: "Group_and_sort (tasks (snd (DELETE st taskId req))) pid s
                             = filter (\<lambda>t. id t \<noteq> taskId) (Group_and_sort (tasks st) pid s)" for pid s
    by (simp add: Group_and_sort_filter)
  then show "\<forall>pid s. Group_and_sort (tasks (snd (DELETE st taskId req))) pid s
                             = filter (\<lambda>t. id t \<noteq> taskId) (Group_and_sort (tasks st) pid s)"
    by blast
  show "\<forall>pid r cols cols' s.
                      refresh st pid r = Some cols
                      \<and> refresh (snd (DELETE st taskId req)) pid r = Some cols'
                      \<longrightarrow> cols' s = filter (\<lambda>t. id t \<noteq> taskId) (cols s)"
  proof (intro allI impI)
    fix pid r cols cols' s
    assume "refresh st pid r = Some cols
                      \<and> refresh (snd (DELETE st taskId req)) pid r = Some cols'"
    then have "cols s = map select_task (Group_and_sort (tasks st) pid s)"
      and "cols' s = map select_task (Group_and_sort (tasks (snd (DELETE st taskId req))) pid s)"
      using refresh_column[of st pid r cols s]
        refresh_column[of "snd (DELETE st taskId req)" pid r cols' s] by blast+
    with gs[of pid s] show "cols' s = filter (\<lambda>t. id t \<noteq> taskId) (cols s)"
      by (simp add: filter_map comp_def)
  qed
qed

theorem delete_does_not_renumber_witness:
  "fst (DELETE board_store ''B'' member_request) = OkTrue
   \<and> map (\<lambda>t. (id t, status t, order t)) (tasks (snd (DELETE board_store ''B'' member_request)))
       = [(''A'', TODO, 1), (''C'', TODO, 0), (''D'', DONE, 0), (''E'', TODO, 7)]
   \<and> map id (Group_and_sort (tasks (snd (DELETE board_store ''B'' member_request))) ''p'' TODO)
       = [''C'', ''A'']"
proof -
  have ex: "task_findUnique board_store ''B'' = Some (example_task ''B'' ''p'' TODO 0 20)"
    by code_simp
  have auth: "getMemberIdOrThrow member_request = Inr ''m''"
    "assertMemberInProject board_store (projectId (example_task ''B'' ''p'' TODO 0 20)) ''m'' = Inr ()"
    by code_simp+
  from delete_does_not_renumber[OF ex, of member_request "''m''"] auth
  have run: "DELETE board_store ''B'' member_request
      = (OkTrue, board_store\<lparr>tasks := filter (\<lambda>t. id t \<noteq> ''B'') (tasks board_store)\<rparr>)"
    and gs: "Group_and_sort (tasks (snd (DELETE board_store ''B'' member_request))) ''p'' TODO
      = filter (\<lambda>t. id t \<noteq> ''B'') (Group_and_sort (tasks board_store) ''p'' TODO)"
    by blast+
  have rows: "map (\<lambda>t. (id t, status t, order t)) (filter (\<lambda>t. id t \<noteq> ''B'') (tasks board_store))
       = [(''A'', TODO, 1), (''C'', TODO, 0), (''D'', DONE, 0), (''E'', TODO, 7)]"
    by code_simp
  have col: "map id (filter (\<lambda>t. id t \<noteq> ''B'') (Group_and_sort (tasks board_store) ''p'' TODO))
       = [''C'', ''A'']"
    by code_simp
  from run rows gs col show ?thesis
    by simp
qed

text \<open>
  C10. A \<^verbatim>\<open>DELETE\<close> that carries a member identity, for a task identifier that matches no
  task, answers \<^verbatim>\<open>{ ok: true }\<close> and leaves the store unchanged, whatever the membership
  table holds: the membership of the caller is not looked at.
\<close>

theorem delete_unknown_task:
  assumes "getMemberIdOrThrow req = Inr m"
    and "task_findUnique st taskId = None"
  shows "DELETE st taskId req = (OkTrue, st)
         \<and> (\<forall>pms. DELETE (st\<lparr>projectMembers := pms\<rparr>) taskId req
                     = (OkTrue, st\<lparr>projectMembers := pms\<rparr>))"
  using assms by (simp add: DELETE_def task_findUnique_def)

theorem delete_unknown_task_witness:
  "DELETE board_store ''Z'' stranger_request = (OkTrue, board_store)
   \<and> DELETE (board_store\<lparr>projectMembers := []\<rparr>) ''Z'' stranger_request
       = (OkTrue, board_store\<lparr>projectMembers := []\<rparr>)"
proof -
  have h: "getMemberIdOrThrow stranger_request = Inr ''stranger''"
    "task_findUnique board_store ''Z'' = None"
    by code_simp+
  from delete_unknown_task[OF h] show ?thesis
    by simp
qed

end
